theory Spec2Isabelle
  imports Main "HOL-Library.List_Lexorder" "HOL-Library.Char_ord"
begin

section \<open>The commit queue of server.js\<close>

text \<open>
  \<^verbatim>\<open>
  class CommitQueue {
    constructor() { this.queue = []; this.running = false; }
    push(task) { this.queue.push(task); this._run(); }
    async _run() {
      if (this.running) return;
      this.running = true;
      while (this.queue.length) {
        const task = this.queue.shift();
        try { await task(); }
        catch (err) { console.error('Commit task error:', err); }
      }
      this.running = false;
    }
  }
  \<close>
  JavaScript runs one piece of synchronous code at a time; an activation of the async
  function \<open>_run\<close> gives up control only at \<open>await task()\<close>. The state of the
  queue object between two such pieces is therefore: the array \<open>queue\<close>, the flag
  \<open>running\<close>, and the activations of \<open>_run\<close> that are suspended at the
  \<open>await\<close>, each with the task whose promise it waits for (\<open>awaiting\<close>). The model
  does not assume that there is at most one of them: that is a theorem below.

  Two more fields record what happens: \<open>trace\<close> gets \<open>Started t\<close> when \<open>task()\<close>
  is called and \<open>Finished t r\<close> when the activation awaiting \<open>t\<close> resumes with the
  outcome \<open>r\<close>; \<open>console\<close> gets the lines of \<open>console.error\<close>.

  A task is an async function (the only tasks ever pushed are the closures built by
  \<open>makeCommitTask\<close>): calling it never throws synchronously, it returns a promise, which
  later is fulfilled (\<open>Returned\<close>) or rejected (\<open>Threw\<close>). A task does not call
  \<open>push\<close> itself.
\<close>

datatype outcome = Returned | Threw string

datatype 'a event = Started 'a | Finished 'a outcome

record 'a commit_queue =
  queue :: "'a list"
  running :: bool
  awaiting :: "'a list"
  trace :: "'a event list"
  console :: "string list"

definition new_queue :: "'a commit_queue" where
  "new_queue = \<lparr>queue = [], running = False, awaiting = [], trace = [], console = []\<rparr>"

text \<open>
  The \<open>while\<close> loop from its head to the next suspension or to its exit: with an empty
  array the loop ends and \<open>running\<close> is reset; otherwise the head is shifted out, the task
  is called and the activation suspends on its promise.
\<close>

definition while_loop :: "'a commit_queue \<Rightarrow> 'a commit_queue" where
  "while_loop s =
     (case queue s of
        [] \<Rightarrow> s\<lparr>running := False\<rparr>
      | task # rest \<Rightarrow>
          s\<lparr>queue := rest, awaiting := awaiting s @ [task], trace := trace s @ [Started task]\<rparr>)"

definition run :: "'a commit_queue \<Rightarrow> 'a commit_queue" where
  "run s = (if running s then s else while_loop (s\<lparr>running := True\<rparr>))"

definition push :: "'a \<Rightarrow> 'a commit_queue \<Rightarrow> 'a commit_queue" where
  "push task s = run (s\<lparr>queue := queue s @ [task]\<rparr>)"

text \<open>
  The promise awaited by the \<open>i\<close>-th suspended activation settles with outcome \<open>r\<close>: the
  activation resumes, a rejection is caught and logged, and the loop goes back to its head.
  With no such activation nothing happens.
\<close>

definition settle :: "nat \<Rightarrow> outcome \<Rightarrow> 'a commit_queue \<Rightarrow> 'a commit_queue" where
  "settle i r s =
     (if i < length (awaiting s) then
        let task = awaiting s ! i;
            s1 = s\<lparr>awaiting := take i (awaiting s) @ drop (Suc i) (awaiting s),
                   trace := trace s @ [Finished task r]\<rparr>;
            s2 = (case r of
                    Returned \<Rightarrow> s1
                  | Threw err \<Rightarrow> s1\<lparr>console := console s1 @ [''Commit task error: '' @ err]\<rparr>)
        in while_loop s2
      else s)"

text \<open>What can happen to a queue object, and a run of the object from its construction.\<close>

datatype 'a action = Push 'a | Settle nat outcome

fun step :: "'a action \<Rightarrow> 'a commit_queue \<Rightarrow> 'a commit_queue" where
  "step (Push task) s = push task s"
| "step (Settle i r) s = settle i r s"

definition exec :: "'a action list \<Rightarrow> 'a commit_queue" where
  "exec acts = fold step acts new_queue"

fun pushed :: "'a action list \<Rightarrow> 'a list" where
  "pushed [] = []"
| "pushed (Push task # acts) = task # pushed acts"
| "pushed (Settle i r # acts) = pushed acts"

fun started :: "'a event list \<Rightarrow> 'a list" where
  "started [] = []"
| "started (Started t # es) = t # started es"
| "started (Finished t r # es) = started es"

fun finished :: "'a event list \<Rightarrow> 'a list" where
  "finished [] = []"
| "finished (Started t # es) = finished es"
| "finished (Finished t r # es) = t # finished es"

text \<open>
  A trace in which no two executions overlap: every \<open>Started t\<close> is followed at once by
  the \<open>Finished\<close> of the same task, except that the last execution may still be open.
\<close>

fun serial :: "'a event list \<Rightarrow> bool" where
  "serial [] = True"
| "serial [Started t] = True"
| "serial (Started t # Finished t' r # es) = (t = t' \<and> serial es)"
| "serial (e # es) = False"

text \<open>The trace of executions run one after the other, the last one possibly open.\<close>

definition pairs :: "('a \<times> outcome) list \<Rightarrow> 'a event list" where
  "pairs cs = concat (map (\<lambda>(t, r). [Started t, Finished t r]) cs)"

definition queue_inv :: "'a action list \<Rightarrow> 'a commit_queue \<Rightarrow> bool" where
  "queue_inv acts s \<longleftrightarrow>
     (\<exists>cs. trace s = pairs cs @ map Started (awaiting s) \<and>
             map fst cs @ awaiting s @ queue s = pushed acts) \<and>
     length (awaiting s) = (if running s then 1 else 0) \<and>
     (\<not> running s \<longrightarrow> queue s = [])"

section \<open>Entry names\<close>

text \<open>
  The handlers build the name of an audit entry from the issue id and
  \<^verbatim>\<open>new Date().toISOString().replace(/[:.]/g,'-')\<close>. A \<open>Date\<close> is read here through its
  UTC fields. \<open>toISOString\<close> prints them as \<^verbatim>\<open>YYYY-MM-DDTHH:mm:ss.sssZ\<close>, and as
  \<^verbatim>\<open>+YYYYYY-MM-...\<close> for a year above 9999. Its finest field is the millisecond.
\<close>

definition digit :: "nat \<Rightarrow> char" where
  "digit n = ''0123456789'' ! (n mod 10)"

fun dec :: "nat \<Rightarrow> string" where
  "dec n = (if n < 10 then [digit n] else dec (n div 10) @ [digit n])"

declare dec.simps [simp del]

definition pad2 :: "nat \<Rightarrow> string" where
  "pad2 n = [digit (n div 10), digit n]"

definition pad3 :: "nat \<Rightarrow> string" where
  "pad3 n = [digit (n div 100), digit (n div 10), digit n]"

definition pad4 :: "nat \<Rightarrow> string" where
  "pad4 n = [digit (n div 1000), digit (n div 100), digit (n div 10), digit n]"

definition pad6 :: "nat \<Rightarrow> string" where
  "pad6 n = [digit (n div 100000), digit (n div 10000), digit (n div 1000),
             digit (n div 100), digit (n div 10), digit n]"

record utc =
  year :: nat
  month :: nat
  day :: nat
  hours :: nat
  minutes :: nat
  seconds :: nat
  millis :: nat

definition valid_utc :: "utc \<Rightarrow> bool" where
  "valid_utc d \<longleftrightarrow>
     year d \<le> 275760 \<and> 1 \<le> month d \<and> month d \<le> 12 \<and> 1 \<le> day d \<and> day d \<le> 31 \<and>
     hours d < 24 \<and> minutes d < 60 \<and> seconds d < 60 \<and> millis d < 1000"

definition toISOString :: "utc \<Rightarrow> string" where
  "toISOString d =
     (if year d \<le> 9999 then pad4 (year d) else CHR ''+'' # pad6 (year d)) @ ''-'' @
     pad2 (month d) @ ''-'' @ pad2 (day d) @ ''T'' @ pad2 (hours d) @ '':'' @
     pad2 (minutes d) @ '':'' @ pad2 (seconds d) @ ''.'' @ pad3 (millis d) @ ''Z''"

text \<open>\<^verbatim>\<open>.replace(/[:.]/g,'-')\<close>\<close>

definition replace_colons_dots :: "string \<Rightarrow> string" where
  "replace_colons_dots s = map (\<lambda>c. if c = CHR '':'' \<or> c = CHR ''.'' then CHR ''-'' else c) s"

definition timestamp :: "utc \<Rightarrow> string" where
  "timestamp d = replace_colons_dots (toISOString d)"

text \<open>The three template strings of the handlers (lines 138, 161 and 189).\<close>

definition create_filename :: "nat \<Rightarrow> string \<Rightarrow> string" where
  "create_filename issueId ts = ''create-issue-'' @ dec issueId @ ''-'' @ ts @ ''.json''"

definition update_filename :: "nat \<Rightarrow> string \<Rightarrow> string" where
  "update_filename i ts = ''update-issue-'' @ dec i @ ''-'' @ ts @ ''.json''"

definition comment_filename :: "nat \<Rightarrow> nat \<Rightarrow> string \<Rightarrow> string" where
  "comment_filename i commentId ts =
     ''comment-issue-'' @ dec i @ ''-'' @ dec commentId @ ''-'' @ ts @ ''.json''"

text \<open>
  The naming scheme in the words of the specification, for comparison with the three
  functions above: \<^verbatim>\<open>{kind}-{subjectId}-{isoTimestampWithNoColonsOrDots}.json\<close>.
\<close>

definition spec_entry_name :: "string \<Rightarrow> nat \<Rightarrow> string \<Rightarrow> string" where
  "spec_entry_name kind subjectId ts = kind @ ''-'' @ dec subjectId @ ''-'' @ ts @ ''.json''"

section \<open>Commit tasks\<close>

text \<open>
  JavaScript values: \<open>json\<close> for the objects that are emitted and logged, \<open>jsval\<close> for a
  field of a request body. The fields of this API are texts: a field is absent
  (\<open>Undefined\<close>), \<open>null\<close> or a string; numbers, booleans, arrays and objects as field values
  are outside the model.
\<close>

datatype json =
  JUndefined | JNull | JBool bool | JNum int | JStr string
| JArr "json list" | JObj "(string \<times> json) list"

datatype jsval = Undefined | Null | Str string

text \<open>
  \<^verbatim>\<open>
  function makeCommitTask(filename, content, message) {
    return async () => {
      const filePath = path.join(LOGS_DIR, filename);
      await fs.writeFile(filePath, JSON.stringify(content, null, 2), 'utf8');
      try {
        await execAsync(`git add "${path.relative(REPO_DIR, filePath)}"`, { cwd: REPO_DIR });
        await execAsync(`git commit -m "${message.replace(/"/g, '\\"')}" --no-verify`, { cwd: REPO_DIR });
        console.log('Committed', filePath);
      } catch (err) {
        console.error('Git error:', err.stderr || err.message);
      }
    };
  }
  \<close>
  The closure is the record of the three captured values; \<open>run_task\<close> is its body. The
  file system is a map from paths to contents. What the world outside answers is an
  argument: \<open>write_file\<close> says whether \<open>fs.writeFile\<close> succeeds (a failed write has an
  error text and leaves at the path whatever the environment says: nothing, the old
  content, or a part), \<open>exec_cmd\<close> gives for a shell command \<open>None\<close> when it succeeds and
  the text of \<open>err.stderr || err.message\<close> when it fails. \<open>JSON.stringify(_, null, 2)\<close>
  is the argument \<open>stringify\<close>, \<open>REPO_DIR\<close> the argument \<open>repo_dir\<close>. File names contain
  no path separator, so \<open>path.join\<close> is concatenation with \<open>/\<close>.
\<close>

record commit_task =
  filename :: string
  content :: json
  message :: string

definition makeCommitTask :: "string \<Rightarrow> json \<Rightarrow> string \<Rightarrow> commit_task" where
  "makeCommitTask f c m = \<lparr>filename = f, content = c, message = m\<rparr>"

datatype write_result = Written | WriteFailed string "string option"

record task_env =
  write_file :: write_result
  exec_cmd :: "string \<Rightarrow> string option"

record disk =
  files :: "string \<rightharpoonup> string"
  stdout :: "string list"

definition LOGS_DIR :: "string \<Rightarrow> string" where
  "LOGS_DIR repo_dir = repo_dir @ ''/'' @ ''issue_logs''"

definition escape_quotes :: "string \<Rightarrow> string" where
  "escape_quotes m = concat (map (\<lambda>c. if c = CHR 0x22 then [CHR 0x5C, CHR 0x22] else [c]) m)"

definition git_add_cmd :: "string \<Rightarrow> string" where
  "git_add_cmd f = ''git add '' @ [CHR 0x22] @ ''issue_logs/'' @ f @ [CHR 0x22]"

definition git_commit_cmd :: "string \<Rightarrow> string" where
  "git_commit_cmd m =
     ''git commit -m '' @ [CHR 0x22] @ escape_quotes m @ [CHR 0x22] @ '' --no-verify''"

definition git_error :: "string \<Rightarrow> disk \<Rightarrow> disk" where
  "git_error e d = d\<lparr>stdout := stdout d @ [''Git error: '' @ e]\<rparr>"

definition run_task ::
  "(json \<Rightarrow> string) \<Rightarrow> string \<Rightarrow> task_env \<Rightarrow> commit_task \<Rightarrow> disk \<Rightarrow> disk \<times> outcome" where
  "run_task stringify repo_dir env t d =
     (let filePath = LOGS_DIR repo_dir @ ''/'' @ filename t in
      case write_file env of
        WriteFailed e left \<Rightarrow> (d\<lparr>files := (files d)(filePath := left)\<rparr>, Threw e)
      | Written \<Rightarrow>
          let d1 = d\<lparr>files := (files d)(filePath \<mapsto> stringify (content t))\<rparr> in
          (case exec_cmd env (git_add_cmd (filename t)) of
             Some e \<Rightarrow> (git_error e d1, Returned)
           | None \<Rightarrow>
               (case exec_cmd env (git_commit_cmd (message t)) of
                  Some e \<Rightarrow> (git_error e d1, Returned)
                | None \<Rightarrow> (d1\<lparr>stdout := stdout d1 @ [''Committed '' @ filePath]\<rparr>, Returned))))"

section \<open>The store\<close>

text \<open>
  The two tables of \<open>initDb\<close>. \<open>title\<close> and \<open>status\<close> are \<^verbatim>\<open>TEXT NOT NULL\<close>, the other
  text columns may hold \<^verbatim>\<open>NULL\<close> (\<open>None\<close>). Both keys are \<^verbatim>\<open>AUTOINCREMENT\<close>: a new row
  gets one more than the largest key ever used, which the store keeps in \<open>issues_seq\<close>
  and \<open>comments_seq\<close>. \<^verbatim>\<open>datetime('now')\<close> is an argument of each statement that uses it.
\<close>

record issue_row =
  iid :: nat
  title :: string
  description :: "string option"
  status :: string
  assignee :: "string option"
  created_at :: string
  updated_at :: string

record comment_row =
  cid :: nat
  issue_id :: nat
  author :: "string option"
  body_text :: "string option"
  c_created_at :: string

record database =
  issues :: "issue_row list"
  comments :: "comment_row list"
  issues_seq :: nat
  comments_seq :: nat

definition max_id :: "nat list \<Rightarrow> nat" where
  "max_id ks = fold max ks 0"

text \<open>\<^verbatim>\<open>INSERT INTO issues (title, description, assignee) VALUES (?, ?, ?)\<close>\<close>

definition insert_issue ::
  "string \<Rightarrow> string option \<Rightarrow> string option \<Rightarrow> string option \<Rightarrow> database
     \<Rightarrow> string + nat \<times> database" where
  "insert_issue now t d a s =
     (case t of
        None \<Rightarrow> Inl ''SQLITE_CONSTRAINT: NOT NULL constraint failed: issues.title''
      | Some t' \<Rightarrow>
          let lastID = Suc (max (issues_seq s) (max_id (map iid (issues s)))) in
          Inr (lastID,
               s\<lparr>issues := issues s @
                    [\<lparr>iid = lastID, title = t', description = d, status = ''open'',
                      assignee = a, created_at = now, updated_at = now\<rparr>],
                 issues_seq := lastID\<rparr>))"

text \<open>\<^verbatim>\<open>SELECT * FROM issues WHERE id = ?\<close>\<close>

definition get_issue :: "nat \<Rightarrow> database \<Rightarrow> issue_row option" where
  "get_issue i s = find (\<lambda>r. iid r = i) (issues s)"

text \<open>
  \<^verbatim>\<open>SELECT * FROM comments WHERE issue_id = ? ORDER BY created_at\<close>; rows with the
  same \<open>created_at\<close> come in the order of their insertion.
\<close>

definition all_comments :: "nat \<Rightarrow> database \<Rightarrow> comment_row list" where
  "all_comments i s = sort_key c_created_at (filter (\<lambda>c. issue_id c = i) (comments s))"

text \<open>\<open>COALESCE p cur\<close> with a parameter that is \<^verbatim>\<open>NULL\<close> (\<open>None\<close>) or a value.\<close>

definition COALESCE :: "'a option \<Rightarrow> 'a \<Rightarrow> 'a" where
  "COALESCE p cur = (case p of None \<Rightarrow> cur | Some v \<Rightarrow> v)"

text \<open>
  \<^verbatim>\<open>UPDATE issues SET title = COALESCE(?, title), description = COALESCE(?, description),
  status = COALESCE(?, status), assignee = COALESCE(?, assignee),
  updated_at = datetime('now') WHERE id = ?\<close>
\<close>

definition update_issue ::
  "string \<Rightarrow> string option \<Rightarrow> string option \<Rightarrow> string option \<Rightarrow> string option \<Rightarrow> nat
     \<Rightarrow> database \<Rightarrow> database" where
  "update_issue now t d st a i s =
     s\<lparr>issues :=
         map (\<lambda>r. if iid r = i then
                     r\<lparr>title := COALESCE t (title r),
                       description := COALESCE (map_option Some d) (description r),
                       status := COALESCE st (status r),
                       assignee := COALESCE (map_option Some a) (assignee r),
                       updated_at := now\<rparr>
                   else r) (issues s)\<rparr>"

text \<open>\<^verbatim>\<open>INSERT INTO comments (issue_id, author, text) VALUES (?, ?, ?)\<close>\<close>

definition insert_comment ::
  "string \<Rightarrow> nat \<Rightarrow> string option \<Rightarrow> string option \<Rightarrow> database \<Rightarrow> nat \<times> database" where
  "insert_comment now i a t s =
     (let lastID = Suc (max (comments_seq s) (max_id (map cid (comments s)))) in
      (lastID,
       s\<lparr>comments := comments s @
            [\<lparr>cid = lastID, issue_id = i, author = a, body_text = t, c_created_at = now\<rparr>],
         comments_seq := lastID\<rparr>))"

text \<open>\<^verbatim>\<open>SELECT * FROM comments WHERE id = ?\<close>\<close>

definition get_comment :: "nat \<Rightarrow> database \<Rightarrow> comment_row option" where
  "get_comment c s = find (\<lambda>r. cid r = c) (comments s)"

text \<open>\<^verbatim>\<open>UPDATE issues SET updated_at = datetime('now') WHERE id = ?\<close>\<close>

definition touch_issue :: "string \<Rightarrow> nat \<Rightarrow> database \<Rightarrow> database" where
  "touch_issue now i s =
     s\<lparr>issues := map (\<lambda>r. if iid r = i then r\<lparr>updated_at := now\<rparr> else r) (issues s)\<rparr>"

text \<open>The objects that \<open>db.get\<close> returns for a row, with the columns as keys.\<close>

definition text_json :: "string option \<Rightarrow> json" where
  "text_json t = (case t of None \<Rightarrow> JNull | Some s \<Rightarrow> JStr s)"

definition issue_json :: "issue_row \<Rightarrow> json" where
  "issue_json r =
     JObj [(''id'', JNum (int (iid r))), (''title'', JStr (title r)),
           (''description'', text_json (description r)), (''status'', JStr (status r)),
           (''assignee'', text_json (assignee r)), (''created_at'', JStr (created_at r)),
           (''updated_at'', JStr (updated_at r))]"

definition comment_json :: "comment_row \<Rightarrow> json" where
  "comment_json c =
     JObj [(''id'', JNum (int (cid c))), (''issue_id'', JNum (int (issue_id c))),
           (''author'', text_json (author c)), (''text'', text_json (body_text c)),
           (''created_at'', JStr (c_created_at c))]"

text \<open>\<^verbatim>\<open>obj.k = v\<close>\<close>

fun set_prop :: "string \<Rightarrow> json \<Rightarrow> json \<Rightarrow> json" where
  "set_prop k v (JObj kvs) =
     JObj (if k \<in> set (map fst kvs)
           then map (\<lambda>(k', v'). if k' = k then (k', v) else (k', v')) kvs
           else kvs @ [(k, v)])"
| "set_prop k v j = j"

section \<open>The request handlers\<close>

text \<open>
  A request body is the function from its keys to their values; a key that the body does
  not have is \<open>Undefined\<close>. \<open>truthy\<close> is JavaScript's test of a value in \<open>!x\<close> and
  \<open>x || y\<close>; \<open>bind\<close> is the value SQLite gets for a parameter (an \<open>undefined\<close> parameter
  stays unbound, which is \<^verbatim>\<open>NULL\<close>).
\<close>

type_synonym body = "string \<Rightarrow> jsval"

fun truthy :: "jsval \<Rightarrow> bool" where
  "truthy (Str s) = (s \<noteq> [])"
| "truthy Undefined = False"
| "truthy Null = False"

definition js_or :: "jsval \<Rightarrow> jsval \<Rightarrow> jsval" where
  "js_or a b = (if truthy a then a else b)"

fun bind :: "jsval \<Rightarrow> string option" where
  "bind (Str s) = Some s"
| "bind Undefined = None"
| "bind Null = None"

fun to_string :: "jsval \<Rightarrow> string" where
  "to_string (Str s) = s"
| "to_string Undefined = ''undefined''"
| "to_string Null = ''null''"

text \<open>
  What a handler does to the world outside of it, in the order in which it does it: a
  statement that changes the store (\<open>db.run\<close>), \<open>io.emit\<close>, and \<open>commitQueue.push\<close>.
  A handler answers with a status and a body; \<open>Rejected\<close> stands for a handler whose
  promise is rejected before it answers.

  The statements of one handler are run here with no other request between them, and
  every statement on the store succeeds unless a constraint of the schema fails. The
  handlers with the steps of other requests at every \<open>await\<close> come in a section of
  their own below.
\<close>

datatype effect = StoreWrite string | Broadcast string json | Enqueue commit_task

datatype reply = Reply nat json | Rejected string

record world =
  db :: database
  commitQueue :: "commit_task commit_queue"
  effects :: "effect list"

definition db_run :: "string \<Rightarrow> database \<Rightarrow> world \<Rightarrow> world" where
  "db_run sql s w = w\<lparr>db := s, effects := effects w @ [StoreWrite sql]\<rparr>"

definition emit :: "string \<Rightarrow> json \<Rightarrow> world \<Rightarrow> world" where
  "emit name payload w = w\<lparr>effects := effects w @ [Broadcast name payload]\<rparr>"

definition commitQueue_push :: "commit_task \<Rightarrow> world \<Rightarrow> world" where
  "commitQueue_push t w =
     w\<lparr>commitQueue := push t (commitQueue w), effects := effects w @ [Enqueue t]\<rparr>"

definition error_json :: "string \<Rightarrow> json" where
  "error_json e = JObj [(''error'', JStr e)]"

definition comments_json :: "nat \<Rightarrow> database \<Rightarrow> json" where
  "comments_json i s = JArr (map comment_json (all_comments i s))"

text \<open>\<^verbatim>\<open>app.post('/api/issues', ...)\<close>, lines 123 to 143\<close>

definition post_issue :: "body \<Rightarrow> string \<Rightarrow> utc \<Rightarrow> world \<Rightarrow> world \<times> reply" where
  "post_issue b sql_now js_now w =
     (if \<not> truthy (b ''title'') then (w, Reply 400 (error_json ''title required''))
      else
        case insert_issue sql_now (bind (b ''title''))
               (bind (js_or (b ''description'') (Str [])))
               (bind (js_or (b ''assignee'') Null)) (db w) of
          Inl e \<Rightarrow> (w, Rejected e)
        | Inr (issueId, s1) \<Rightarrow>
            let w1 = db_run ''INSERT INTO issues'' s1 w in
            (case get_issue issueId (db w1) of
               None \<Rightarrow> (w1, Rejected ''TypeError'')
             | Some row \<Rightarrow>
                 let issue = set_prop ''comments'' (JArr []) (issue_json row);
                     w2 = emit ''issue:created'' issue w1;
                     ts = timestamp js_now;
                     filename = create_filename issueId ts;
                     message = ''Create issue #'' @ dec issueId @ '': '' @ title row;
                     w3 = commitQueue_push
                            (makeCommitTask filename
                               (JObj [(''action'', JStr ''create''), (''issue'', issue)]) message) w2
                 in (w3, Reply 201 issue)))"

text \<open>\<^verbatim>\<open>app.put('/api/issues/:id', ...)\<close>, lines 145 to 166\<close>

definition put_issue :: "nat \<Rightarrow> body \<Rightarrow> string \<Rightarrow> utc \<Rightarrow> world \<Rightarrow> world \<times> reply" where
  "put_issue i b sql_now js_now w =
     (case get_issue i (db w) of
        None \<Rightarrow> (w, Reply 404 (error_json ''Issue not found''))
      | Some existing \<Rightarrow>
          let w1 = db_run ''UPDATE issues''
                     (update_issue sql_now (bind (b ''title'')) (bind (b ''description''))
                        (bind (b ''status'')) (bind (b ''assignee'')) i (db w)) w in
          (case get_issue i (db w1) of
             None \<Rightarrow> (w1, Rejected ''TypeError'')
           | Some row \<Rightarrow>
               let updated = set_prop ''comments'' (comments_json i (db w1)) (issue_json row);
                   w2 = emit ''issue:updated'' updated w1;
                   ts = timestamp js_now;
                   filename = update_filename i ts;
                   message = ''Update issue #'' @ dec i @ '': set '' @
                             to_string (js_or (b ''status'') (Str ''no-status-change''));
                   w3 = commitQueue_push
                          (makeCommitTask filename
                             (JObj [(''action'', JStr ''update''), (''before'', issue_json existing),
                                    (''after'', updated)]) message) w2
               in (w3, Reply 200 updated)))"

text \<open>\<^verbatim>\<open>app.post('/api/issues/:id/comments', ...)\<close>, lines 168 to 194\<close>

definition post_comment ::
  "nat \<Rightarrow> body \<Rightarrow> string \<Rightarrow> string \<Rightarrow> utc \<Rightarrow> world \<Rightarrow> world \<times> reply" where
  "post_comment i b sql_now sql_now' js_now w =
     (if \<not> truthy (b ''text'') then (w, Reply 400 (error_json ''text required''))
      else
        case get_issue i (db w) of
          None \<Rightarrow> (w, Reply 404 (error_json ''Issue not found''))
        | Some issue \<Rightarrow>
            let (commentId, s1) =
                  insert_comment sql_now i (bind (js_or (b ''author'') (Str ''anonymous'')))
                    (bind (b ''text'')) (db w);
                w1 = db_run ''INSERT INTO comments'' s1 w;
                comment = get_comment commentId (db w1);
                w2 = db_run ''UPDATE issues'' (touch_issue sql_now' i (db w1)) w1
            in
            (case get_issue i (db w2) of
               None \<Rightarrow> (w2, Rejected ''TypeError'')
             | Some row \<Rightarrow>
                 let updatedIssue = set_prop ''comments'' (comments_json i (db w2)) (issue_json row);
                     commentJ = (case comment of None \<Rightarrow> JUndefined | Some c \<Rightarrow> comment_json c);
                     w3 = emit ''issue:comment''
                            (JObj [(''issue'', updatedIssue), (''comment'', commentJ)]) w2;
                     ts = timestamp js_now;
                     filename = comment_filename i commentId ts
                 in
                 (case comment of
                    None \<Rightarrow> (w3, Rejected ''TypeError'')
                  | Some c \<Rightarrow>
                      let message = ''Comment on issue #'' @ dec i @ '' by '' @
                                    (case author c of
                                       None \<Rightarrow> ''anon''
                                     | Some a \<Rightarrow> if a = [] then ''anon'' else a);
                          w4 = commitQueue_push
                                 (makeCommitTask filename
                                    (JObj [(''action'', JStr ''comment''), (''issue'', updatedIssue),
                                           (''comment'', commentJ)]) message) w3
                      in (w4, Reply 201 commentJ))))"

definition new_world :: world where
  "new_world =
     \<lparr>db = \<lparr>issues = [], comments = [], issues_seq = 0, comments_seq = 0\<rparr>,
      commitQueue = new_queue, effects = []\<rparr>"

section \<open>JSON text\<close>

text \<open>
  The text that \<^verbatim>\<open>JSON.stringify(v, null, 2)\<close> gives for an object built from \<open>null\<close>,
  booleans, integers, strings and arrays and objects of them: members are indented by two
  more spaces than their parent, a member of an object that is \<open>undefined\<close> is left
  out, an \<open>undefined\<close> element of an array is printed as \<open>null\<close>. It is the instance
  used for \<open>stringify\<close> in the example runs; the theorems hold for every function.
\<close>

definition hex_digit :: "nat \<Rightarrow> char" where
  "hex_digit n = ''0123456789abcdef'' ! (n mod 16)"

definition escape_char :: "char \<Rightarrow> string" where
  "escape_char c =
     (if c = CHR 0x22 then [CHR 0x5C, CHR 0x22]
      else if c = CHR 0x5C then [CHR 0x5C, CHR 0x5C]
      else if c = CHR 0x08 then [CHR 0x5C, CHR ''b'']
      else if c = CHR 0x0C then [CHR 0x5C, CHR ''f'']
      else if c = CHR 0x0A then [CHR 0x5C, CHR ''n'']
      else if c = CHR 0x0D then [CHR 0x5C, CHR ''r'']
      else if c = CHR 0x09 then [CHR 0x5C, CHR ''t'']
      else if of_char c < (32::nat) then
        [CHR 0x5C, CHR ''u'', CHR ''0'', CHR ''0'',
         hex_digit (of_char c div 16), hex_digit (of_char c)]
      else [c])"

definition quote :: "string \<Rightarrow> string" where
  "quote s = [CHR 0x22] @ concat (map escape_char s) @ [CHR 0x22]"

fun join_lines :: "string list \<Rightarrow> string" where
  "join_lines [] = []"
| "join_lines [l] = l"
| "join_lines (l # ls) = l @ [CHR '','', CHR 0x0A] @ join_lines ls"

fun stringify_at :: "string \<Rightarrow> json \<Rightarrow> string" where
  "stringify_at ind JUndefined = ''null''"
| "stringify_at ind JNull = ''null''"
| "stringify_at ind (JBool b) = (if b then ''true'' else ''false'')"
| "stringify_at ind (JNum n) = (if n < 0 then CHR ''-'' # dec (nat (- n)) else dec (nat n))"
| "stringify_at ind (JStr s) = quote s"
| "stringify_at ind (JArr xs) =
     (if xs = [] then ''[]''
      else ''['' @ [CHR 0x0A] @
           join_lines (map (\<lambda>x. ind @ ''  '' @ stringify_at (ind @ ''  '') x) xs) @
           [CHR 0x0A] @ ind @ '']'')"
| "stringify_at ind (JObj kvs) =
     (let ms = concat (map (\<lambda>(k, v). if v = JUndefined then []
                 else [ind @ ''  '' @ quote k @ '': '' @ stringify_at (ind @ ''  '') v]) kvs)
      in if ms = [] then ''{}''
         else ''{'' @ [CHR 0x0A] @ join_lines ms @ [CHR 0x0A] @ ind @ ''}'')"

definition JSON_stringify :: "json \<Rightarrow> string" where
  "JSON_stringify v = stringify_at [] v"

section \<open>The handlers, suspended at every await\<close>

text \<open>
  Every statement on the store is awaited, and while a handler waits, other requests and
  the worker of the commit queue run. The handlers are given here once more with what the
  rest of the program does at each \<open>await\<close> as an argument: a list of steps of others
  between each awaited statement and the next, and between the last one and the
  synchronous rest of the handler (\<open>io.emit\<close>, \<open>commitQueue.push\<close>, the answer), which
  runs in one piece. A step of others is one statement of another request on the store,
  an \<open>io.emit\<close> or a \<open>commitQueue.push\<close> of another request, or the settling of a task
  of the commit queue. No statement of the program deletes a row.

  Two more things of the real store are in these definitions. SQLite refuses an
  \<^verbatim>\<open>AUTOINCREMENT\<close> key above \<open>2^63 - 1\<close>. And \<open>result.lastID\<close> is a JavaScript
  number: a key of \<open>2^53\<close> or more arrives as the nearest double (ties to the even
  one), and it is that number the handler reads the row back with. How JavaScript prints
  a number in a template string is the argument \<open>num_str\<close>; for a number below
  \<open>2^53\<close> it is \<open>dec\<close>.
\<close>

fun bit_length :: "nat \<Rightarrow> nat" where
  "bit_length n = (if n = 0 then 0 else Suc (bit_length (n div 2)))"

declare bit_length.simps [simp del]

definition js_number :: "nat \<Rightarrow> nat" where
  "js_number n =
     (let u = 2 ^ (bit_length n - 53); q = n div u; r = n mod u
      in if 2 * r < u \<or> (2 * r = u \<and> even q) then q * u else Suc q * u)"

definition max_rowid :: nat where
  "max_rowid = 9223372036854775807"

definition sql_insert_issue ::
  "string \<Rightarrow> string option \<Rightarrow> string option \<Rightarrow> string option \<Rightarrow> database
     \<Rightarrow> string + nat \<times> database" where
  "sql_insert_issue now t d a s =
     (case insert_issue now t d a s of
        Inl e \<Rightarrow> Inl e
      | Inr (lastID, s') \<Rightarrow>
          if max_rowid < lastID then Inl ''SQLITE_FULL: database or disk is full''
          else Inr (lastID, s'))"

definition sql_insert_comment ::
  "string \<Rightarrow> nat \<Rightarrow> string option \<Rightarrow> string option \<Rightarrow> database
     \<Rightarrow> string + nat \<times> database" where
  "sql_insert_comment now i a t s =
     (case insert_comment now i a t s of
        (lastID, s') \<Rightarrow>
          if max_rowid < lastID then Inl ''SQLITE_FULL: database or disk is full''
          else Inr (lastID, s'))"

datatype other_step =
  OInsertIssue string "string option" "string option" "string option"
| OUpdateIssue string "string option" "string option" "string option" "string option" nat
| OInsertComment string nat "string option" "string option"
| OTouchIssue string nat
| OEmit string json
| OPush commit_task
| OSettle nat outcome

fun other :: "other_step \<Rightarrow> world \<Rightarrow> world" where
  "other (OInsertIssue now t d a) w =
     (case sql_insert_issue now t d a (db w) of
        Inl e \<Rightarrow> w
      | Inr (lastID, s') \<Rightarrow> db_run ''INSERT INTO issues'' s' w)"
| "other (OUpdateIssue now t d st a i) w =
     db_run ''UPDATE issues'' (update_issue now t d st a i (db w)) w"
| "other (OInsertComment now i a t) w =
     (case sql_insert_comment now i a t (db w) of
        Inl e \<Rightarrow> w
      | Inr (lastID, s') \<Rightarrow> db_run ''INSERT INTO comments'' s' w)"
| "other (OTouchIssue now i) w = db_run ''UPDATE issues'' (touch_issue now i (db w)) w"
| "other (OEmit name payload) w = emit name payload w"
| "other (OPush t) w = commitQueue_push t w"
| "other (OSettle k r) w = w\<lparr>commitQueue := settle k r (commitQueue w)\<rparr>"

definition others :: "other_step list \<Rightarrow> world \<Rightarrow> world" where
  "others steps w = fold other steps w"

text \<open>\<^verbatim>\<open>app.post('/api/issues', ...)\<close>: the awaits of lines 126 and 131\<close>

definition post_issue_async ::
  "(nat \<Rightarrow> string) \<Rightarrow> body \<Rightarrow> string \<Rightarrow> utc \<Rightarrow> other_step list \<Rightarrow> other_step list
     \<Rightarrow> world \<Rightarrow> world \<times> reply" where
  "post_issue_async num_str b sql_now js_now o1 o2 w =
     (if \<not> truthy (b ''title'') then (w, Reply 400 (error_json ''title required''))
      else
        case sql_insert_issue sql_now (bind (b ''title''))
               (bind (js_or (b ''description'') (Str [])))
               (bind (js_or (b ''assignee'') Null)) (db w) of
          Inl e \<Rightarrow> (w, Rejected e)
        | Inr (lastID, s1) \<Rightarrow>
            let w1 = db_run ''INSERT INTO issues'' s1 w;
                issueId = js_number lastID;
                w2 = others o1 w1
            in
            (case get_issue issueId (db w2) of
               None \<Rightarrow> (w2, Rejected ''TypeError'')
             | Some row \<Rightarrow>
                 let w3 = others o2 w2;
                     issue = set_prop ''comments'' (JArr []) (issue_json row);
                     w4 = emit ''issue:created'' issue w3;
                     ts = timestamp js_now;
                     filename = ''create-issue-'' @ num_str issueId @ ''-'' @ ts @ ''.json'';
                     message = ''Create issue #'' @ num_str issueId @ '': '' @ title row;
                     w5 = commitQueue_push
                            (makeCommitTask filename
                               (JObj [(''action'', JStr ''create''), (''issue'', issue)]) message) w4
                 in (w5, Reply 201 issue)))"

text \<open>
  \<^verbatim>\<open>app.put('/api/issues/:id', ...)\<close>: the awaits of lines 148, 151, 155 and 156;
  \<open>put_update\<close> is the statement of line 151.
\<close>

definition put_update :: "nat \<Rightarrow> body \<Rightarrow> string \<Rightarrow> world \<Rightarrow> world" where
  "put_update i b sql_now w =
     db_run ''UPDATE issues''
       (update_issue sql_now (bind (b ''title'')) (bind (b ''description''))
          (bind (b ''status'')) (bind (b ''assignee'')) i (db w)) w"

definition put_issue_async ::
  "(nat \<Rightarrow> string) \<Rightarrow> nat \<Rightarrow> body \<Rightarrow> string \<Rightarrow> utc \<Rightarrow> other_step list \<Rightarrow> other_step list
     \<Rightarrow> other_step list \<Rightarrow> other_step list \<Rightarrow> world \<Rightarrow> world \<times> reply" where
  "put_issue_async num_str i b sql_now js_now o1 o2 o3 o4 w =
     (case get_issue i (db w) of
        None \<Rightarrow> (others o1 w, Reply 404 (error_json ''Issue not found''))
      | Some existing \<Rightarrow>
          let w1 = others o1 w;
              w2 = put_update i b sql_now w1;
              w3 = others o2 w2
          in
          (case get_issue i (db w3) of
             None \<Rightarrow> (w3, Rejected ''TypeError'')
           | Some row \<Rightarrow>
               let w4 = others o3 w3;
                   comments = comments_json i (db w4);
                   w5 = others o4 w4;
                   updated = set_prop ''comments'' comments (issue_json row);
                   w6 = emit ''issue:updated'' updated w5;
                   ts = timestamp js_now;
                   filename = ''update-issue-'' @ num_str i @ ''-'' @ ts @ ''.json'';
                   message = ''Update issue #'' @ num_str i @ '': set '' @
                             to_string (js_or (b ''status'') (Str ''no-status-change''));
                   w7 = commitQueue_push
                          (makeCommitTask filename
                             (JObj [(''action'', JStr ''update''), (''before'', issue_json existing),
                                    (''after'', updated)]) message) w6
               in (w7, Reply 200 updated)))"

text \<open>
  \<^verbatim>\<open>app.post('/api/issues/:id/comments', ...)\<close>: the awaits of lines 172, 175, 180, 182,
  183 and 184; \<open>comment_touch\<close> is the statement of line 182.
\<close>

definition comment_touch :: "nat \<Rightarrow> string \<Rightarrow> world \<Rightarrow> world" where
  "comment_touch i sql_now w = db_run ''UPDATE issues'' (touch_issue sql_now i (db w)) w"

definition post_comment_async ::
  "(nat \<Rightarrow> string) \<Rightarrow> nat \<Rightarrow> body \<Rightarrow> string \<Rightarrow> string \<Rightarrow> utc \<Rightarrow> other_step list
     \<Rightarrow> other_step list \<Rightarrow> other_step list \<Rightarrow> other_step list \<Rightarrow> other_step list
     \<Rightarrow> other_step list \<Rightarrow> world \<Rightarrow> world \<times> reply" where
  "post_comment_async num_str i b sql_now sql_now' js_now o1 o2 o3 o4 o5 o6 w =
     (if \<not> truthy (b ''text'') then (w, Reply 400 (error_json ''text required''))
      else
        case get_issue i (db w) of
          None \<Rightarrow> (others o1 w, Reply 404 (error_json ''Issue not found''))
        | Some issue \<Rightarrow>
            let w1 = others o1 w in
            (case sql_insert_comment sql_now i (bind (js_or (b ''author'') (Str ''anonymous'')))
                    (bind (b ''text'')) (db w1) of
               Inl e \<Rightarrow> (w1, Rejected e)
             | Inr (lastID, s2) \<Rightarrow>
                 let w2 = db_run ''INSERT INTO comments'' s2 w1;
                     commentId = js_number lastID;
                     w3 = others o2 w2;
                     comment = get_comment commentId (db w3);
                     w4 = others o3 w3;
                     w5 = comment_touch i sql_now' w4;
                     w6 = others o4 w5
                 in
                 (case get_issue i (db w6) of
                    None \<Rightarrow> (w6, Rejected ''TypeError'')
                  | Some row \<Rightarrow>
                      let w7 = others o5 w6;
                          comments = comments_json i (db w7);
                          w8 = others o6 w7;
                          updatedIssue = set_prop ''comments'' comments (issue_json row);
                          commentJ = (case comment of
                                        None \<Rightarrow> JUndefined
                                      | Some c \<Rightarrow> comment_json c);
                          w9 = emit ''issue:comment''
                                 (JObj [(''issue'', updatedIssue), (''comment'', commentJ)]) w8;
                          ts = timestamp js_now;
                          filename = ''comment-issue-'' @ num_str i @ ''-'' @
                                     num_str commentId @ ''-'' @ ts @ ''.json''
                      in
                      (case comment of
                         None \<Rightarrow> (w9, Rejected ''TypeError'')
                       | Some c \<Rightarrow>
                           let message = ''Comment on issue #'' @ num_str i @ '' by '' @
                                         (case author c of
                                            None \<Rightarrow> ''anon''
                                          | Some a \<Rightarrow> if a = [] then ''anon'' else a);
                               w10 = commitQueue_push
                                       (makeCommitTask filename
                                          (JObj [(''action'', JStr ''comment''),
                                                 (''issue'', updatedIssue),
                                                 (''comment'', commentJ)]) message) w9
                           in (w10, Reply 201 commentJ)))))"

section \<open>Example runs\<close>

definition acts0 :: "nat action list" where
  "acts0 = [Push 1, Push 2, Settle 0 Returned]"

definition acts1 :: "nat action list" where
  "acts1 = [Push 1, Push 2, Push 3]"

definition clock0 :: utc where
  "clock0 = \<lparr>year = 2026, month = 11, day = 2, hours = 10, minutes = 20, seconds = 30,
             millis = 123\<rparr>"

definition clock1 :: utc where
  "clock1 = clock0\<lparr>millis := 124\<rparr>"

definition sql0 :: string where
  "sql0 = ''2026-11-02 10:20:30''"

definition body_create :: body where
  "body_create = (\<lambda>k. Undefined)(''title'' := Str ''x'')"

definition body_close :: body where
  "body_close = (\<lambda>k. Undefined)(''status'' := Str ''closed'')"

definition body_reopen :: body where
  "body_reopen = (\<lambda>k. Undefined)(''status'' := Str ''open'')"

definition body_comment :: body where
  "body_comment = (\<lambda>k. Undefined)(''text'' := Str ''hello'')"

definition body_empty :: body where
  "body_empty = (\<lambda>k. Undefined)"

text \<open>
  One issue is created. A millisecond later two requests close and reopen it; both read
  the clock in that same millisecond.
\<close>

definition world1 :: world where
  "world1 = fst (post_issue body_create sql0 clock0 new_world)"

definition world2 :: world where
  "world2 = fst (put_issue 1 body_close sql0 clock1 world1)"

definition world3 :: world where
  "world3 = fst (put_issue 1 body_reopen sql0 clock1 world2)"

definition env_ok :: task_env where
  "env_ok = \<lparr>write_file = Written, exec_cmd = (\<lambda>c. None)\<rparr>"

definition env_git_fails :: task_env where
  "env_git_fails = \<lparr>write_file = Written, exec_cmd = (\<lambda>c. Some ''fatal: not a git repository'')\<rparr>"

definition env_write_fails :: task_env where
  "env_write_fails = \<lparr>write_file = WriteFailed ''ENOSPC'' None, exec_cmd = (\<lambda>c. None)\<rparr>"

definition disk0 :: disk where
  "disk0 = \<lparr>files = Map.empty, stdout = []\<rparr>"

definition sql1 :: string where
  "sql1 = ''2026-11-02 10:20:31''"

definition row1 :: issue_row where
  "row1 = \<lparr>iid = 1, title = ''x'', description = Some [], status = ''open'', assignee = None,
            created_at = ''2026-11-02 10:20:30'', updated_at = ''2026-11-02 10:20:30''\<rparr>"

definition issue1 :: json where
  "issue1 = JObj [(''id'', JNum 1), (''title'', JStr ''x''), (''description'', JStr []),
                  (''status'', JStr ''open''), (''assignee'', JNull),
                  (''created_at'', JStr ''2026-11-02 10:20:30''),
                  (''updated_at'', JStr ''2026-11-02 10:20:30''), (''comments'', JArr [])]"

definition task1 :: commit_task where
  "task1 = \<lparr>filename = ''create-issue-1-2026-11-02T10-20-30-123Z.json'',
             content = JObj [(''action'', JStr ''create''), (''issue'', issue1)],
             message = ''Create issue #1: x''\<rparr>"

definition issue_with_status :: "string \<Rightarrow> json" where
  "issue_with_status st =
     JObj [(''id'', JNum 1), (''title'', JStr ''x''), (''description'', JStr []),
           (''status'', JStr st), (''assignee'', JNull),
           (''created_at'', JStr ''2026-11-02 10:20:30''),
           (''updated_at'', JStr ''2026-11-02 10:20:30''), (''comments'', JArr [])]"

definition row_json_with_status :: "string \<Rightarrow> json" where
  "row_json_with_status st =
     JObj [(''id'', JNum 1), (''title'', JStr ''x''), (''description'', JStr []),
           (''status'', JStr st), (''assignee'', JNull),
           (''created_at'', JStr ''2026-11-02 10:20:30''),
           (''updated_at'', JStr ''2026-11-02 10:20:30'')]"

definition task2 :: commit_task where
  "task2 = \<lparr>filename = ''update-issue-1-2026-11-02T10-20-30-124Z.json'',
             content = JObj [(''action'', JStr ''update''),
                             (''before'', row_json_with_status ''open''),
                             (''after'', issue_with_status ''closed'')],
             message = ''Update issue #1: set closed''\<rparr>"

definition task3 :: commit_task where
  "task3 = \<lparr>filename = ''update-issue-1-2026-11-02T10-20-30-124Z.json'',
             content = JObj [(''action'', JStr ''update''),
                             (''before'', row_json_with_status ''closed''),
                             (''after'', issue_with_status ''open'')],
             message = ''Update issue #1: set open''\<rparr>"

definition repo0 :: string where
  "repo0 = ''/srv/app''"

definition path23 :: string where
  "path23 = ''/srv/app/issue_logs/update-issue-1-2026-11-02T10-20-30-124Z.json''"

text \<open>The log directory after the first of the two update tasks has run.\<close>

definition disk1 :: disk where
  "disk1 = fst (run_task JSON_stringify repo0 env_ok task2 disk0)"

definition env_commit_fails :: task_env where
  "env_commit_fails =
     \<lparr>write_file = Written,
      exec_cmd = (\<lambda>c. if c = git_commit_cmd (message task1)
                       then Some ''nothing to commit, working tree clean'' else None)\<rparr>"






section \<open>The queue runs its tasks one at a time, in the order of the pushes\<close>

lemma pairs_snoc: "pairs (cs @ [(t, r)]) = pairs cs @ [Started t, Finished t r]"
  by (simp add: pairs_def)

lemma pairs_Nil: "pairs [] = []"
  by (simp add: pairs_def)

lemma pairs_Cons: "pairs ((t, r) # cs) = Started t # Finished t r # pairs cs"
  by (simp add: pairs_def)

lemma queue_inv_new: "queue_inv [] new_queue"
  by (simp add: queue_inv_def new_queue_def pairs_def)

lemma pushed_snoc_Push: "pushed (acts @ [Push t]) = pushed acts @ [t]"
  by (induction acts rule: pushed.induct) simp_all

lemma pushed_snoc_Settle: "pushed (acts @ [Settle i r]) = pushed acts"
  by (induction acts rule: pushed.induct) simp_all

lemma queue_inv_push:
  assumes "queue_inv acts s"
  shows "queue_inv (acts @ [Push t]) (push t s)"
proof (cases "running s")
  case True
  with assms show ?thesis
    by (auto simp: queue_inv_def push_def run_def pushed_snoc_Push)
next
  case False
  with assms show ?thesis
    by (auto simp: queue_inv_def push_def run_def while_loop_def pushed_snoc_Push)
qed

lemma queue_inv_settle:
  assumes "queue_inv acts s"
  shows "queue_inv (acts @ [Settle i r]) (settle i r s)"
proof (cases "i < length (awaiting s)")
  case False
  with assms show ?thesis
    by (simp add: queue_inv_def settle_def pushed_snoc_Settle)
next
  case True
  from assms True have run: "running s" and i0: "i = 0"
    by (auto simp: queue_inv_def split: if_splits)
  from assms run obtain t where aw: "awaiting s = [t]"
    by (auto simp: queue_inv_def length_Suc_conv)
  from assms obtain cs where
    tr: "trace s = pairs cs @ map Started (awaiting s)" and
    pu: "map fst cs @ awaiting s @ queue s = pushed acts"
    by (auto simp: queue_inv_def)
  define s2 where "s2 = (case r of
        Returned \<Rightarrow> s\<lparr>awaiting := [], trace := trace s @ [Finished t r]\<rparr>
      | Threw err \<Rightarrow> s\<lparr>awaiting := [], trace := trace s @ [Finished t r],
            console := console s @ [''Commit task error: '' @ err]\<rparr>)"
  have st: "settle i r s = while_loop s2"
    using True aw i0 by (simp add: settle_def s2_def Let_def split: outcome.splits)
  have s2: "queue s2 = queue s" "running s2" "awaiting s2 = []"
    "trace s2 = pairs (cs @ [(t, r)])"
    using run tr aw by (simp_all add: s2_def pairs_snoc split: outcome.splits)
  have pu2: "map fst (cs @ [(t, r)]) @ queue s = pushed acts"
    using pu aw by simp
  show ?thesis
  proof (cases "queue s")
    case Nil
    with s2 pu2 show ?thesis
      unfolding st queue_inv_def while_loop_def pushed_snoc_Settle
      by (auto intro!: exI[of _ "cs @ [(t, r)]"])
  next
    case (Cons t' rest)
    with s2 pu2 show ?thesis
      unfolding st queue_inv_def while_loop_def pushed_snoc_Settle
      by (auto intro!: exI[of _ "cs @ [(t, r)]"])
  qed
qed

lemma exec_snoc: "exec (acts @ [a]) = step a (exec acts)"
  by (simp add: exec_def)

lemma queue_inv_exec: "queue_inv acts (exec acts)"
proof (induction acts rule: rev_induct)
  case Nil
  show ?case by (simp add: exec_def queue_inv_new)
next
  case (snoc a acts)
  then show ?case
    by (cases a) (simp_all add: exec_snoc queue_inv_push queue_inv_settle)
qed

lemma started_append: "started (es @ fs) = started es @ started fs"
  by (induction es rule: started.induct) simp_all

lemma finished_append: "finished (es @ fs) = finished es @ finished fs"
  by (induction es rule: finished.induct) simp_all

lemma started_pairs: "started (pairs cs) = map fst cs"
  by (induction cs) (auto simp: pairs_Nil pairs_Cons)

lemma finished_pairs: "finished (pairs cs) = map fst cs"
  by (induction cs) (auto simp: pairs_Nil pairs_Cons)

lemma started_map_Started: "started (map Started ts) = ts"
  by (induction ts) simp_all

lemma finished_map_Started: "finished (map Started ts) = []"
  by (induction ts) simp_all

lemma serial_pairs: "length ts \<le> 1 \<Longrightarrow> serial (pairs cs @ map Started ts)"
proof (induction cs)
  case Nil
  then show ?case by (cases ts) (simp_all add: pairs_Nil)
next
  case (Cons c cs)
  then show ?case by (cases c) (simp add: pairs_Cons)
qed

lemma length_pairs: "length (pairs cs) = 2 * length cs"
  by (induction cs) (auto simp: pairs_Nil pairs_Cons)

lemma pairs_nth_Finished:
  "i < length cs \<Longrightarrow> (pairs cs @ es) ! Suc (2 * i) = Finished (fst (cs ! i)) (snd (cs ! i))"
proof (induction cs arbitrary: i)
  case Nil
  then show ?case by simp
next
  case (Cons c cs)
  then show ?case by (cases c; cases i) (simp_all add: pairs_Cons)
qed

lemma pairs_nth_Started:
  "q < length (pairs cs @ map Started ts) \<Longrightarrow> (pairs cs @ map Started ts) ! q = Started x \<Longrightarrow>
   length ts \<le> 1 \<Longrightarrow>
   even q \<and> q div 2 < length (map fst cs @ ts) \<and> x = (map fst cs @ ts) ! (q div 2)"
proof (induction cs arbitrary: q)
  case Nil
  then show ?case by (cases ts) (auto simp: pairs_Nil)
next
  case (Cons c cs)
  obtain t r where c: "c = (t, r)" by (cases c)
  show ?case
  proof (cases q)
    case 0
    with Cons.prems c show ?thesis by (simp add: pairs_Cons)
  next
    case (Suc q')
    show ?thesis
    proof (cases q')
      case 0
      with Suc Cons.prems c show ?thesis by (simp add: pairs_Cons)
    next
      case (Suc q'')
      with \<open>q = Suc q'\<close> Cons.prems c
      have "q'' < length (pairs cs @ map Started ts)"
        "(pairs cs @ map Started ts) ! q'' = Started x"
        by (simp_all add: pairs_Cons)
      from Cons.IH[OF this Cons.prems(3)] Suc \<open>q = Suc q'\<close> c show ?thesis
        by simp
    qed
  qed
qed

text \<open>
  Claim C1. In every run of the queue no two task executions overlap: the trace is a
  sequence of executions, each started and finished before the next one starts. And for
  two tasks of which the first was pushed before the second: when the second starts, the
  first has finished (by returning or by throwing). Tasks are told apart by their
  identity, hence \<open>distinct\<close>.
\<close>

theorem tasks_run_one_after_the_other:
  "serial (trace (exec acts)) \<and>
   (\<forall>i j q. distinct (pushed acts) \<and> i < j \<and> j < length (pushed acts) \<and>
        q < length (trace (exec acts)) \<and> trace (exec acts) ! q = Started (pushed acts ! j) \<longrightarrow>
        (\<exists>p r. p < q \<and> trace (exec acts) ! p = Finished (pushed acts ! i) r))"
proof -
  let ?s = "exec acts"
  have inv: "queue_inv acts ?s" by (rule queue_inv_exec)
  then obtain cs where
    tr: "trace ?s = pairs cs @ map Started (awaiting ?s)" and
    pu: "map fst cs @ awaiting ?s @ queue ?s = pushed acts"
    by (auto simp: queue_inv_def)
  from inv have aw: "length (awaiting ?s) \<le> 1"
    by (auto simp: queue_inv_def split: if_splits)
  have ser: "serial (trace ?s)"
    unfolding tr by (rule serial_pairs[OF aw])
  have ord: "\<exists>p r. p < q \<and> trace ?s ! p = Finished (pushed acts ! i) r"
    if d: "distinct (pushed acts)" and ij: "i < j" and j: "j < length (pushed acts)"
      and q: "q < length (trace ?s)" and st: "trace ?s ! q = Started (pushed acts ! j)"
    for i j q
  proof -
    let ?st = "map fst cs @ awaiting ?s"
    from pairs_nth_Started[OF q[unfolded tr] st[unfolded tr] aw]
    have ev: "even q" and k: "q div 2 < length ?st" and x: "pushed acts ! j = ?st ! (q div 2)"
      by auto
    have pre: "pushed acts = ?st @ queue ?s" using pu by simp
    have "?st ! (q div 2) = pushed acts ! (q div 2)"
      using k by (subst pre) (simp only: nth_append if_True)
    with x have "pushed acts ! j = pushed acts ! (q div 2)" by simp
    moreover have "q div 2 < length (pushed acts)" using k pre
      by (metis length_append trans_less_add1)
    ultimately have jq: "j = q div 2"
      using d j by (simp add: nth_eq_iff_index_eq)
    have "i < length cs"
      using ij k aw jq by (cases "awaiting ?s") auto
    then have fi: "trace ?s ! Suc (2 * i) = Finished (fst (cs ! i)) (snd (cs ! i))"
      unfolding tr by (rule pairs_nth_Finished)
    from \<open>i < length cs\<close> have pi: "pushed acts ! i = fst (cs ! i)"
      unfolding pre by (simp add: nth_append)
    have "Suc (2 * i) < q" using ij jq ev by auto
    with fi pi show ?thesis by auto
  qed
  from ser ord show ?thesis by blast
qed

lemma exec_acts0:
  "exec acts0 = \<lparr>queue = [], running = True, awaiting = [2],
     trace = [Started 1, Finished 1 Returned, Started 2], console = []\<rparr>"
  by (simp add: acts0_def exec_def new_queue_def push_def run_def while_loop_def settle_def)

theorem tasks_run_one_after_the_other_witness:
  "distinct (pushed acts0) \<and> (0::nat) < 1 \<and> 1 < length (pushed acts0) \<and>
   2 < length (trace (exec acts0)) \<and> trace (exec acts0) ! 2 = Started (pushed acts0 ! 1) \<and>
   serial (trace (exec acts0)) \<and>
   (\<exists>p r. p < 2 \<and> trace (exec acts0) ! p = Finished (pushed acts0 ! 0) r)"
proof -
  have h: "distinct (pushed acts0) \<and> (0::nat) < 1 \<and> 1 < length (pushed acts0) \<and>
   2 < length (trace (exec acts0)) \<and> trace (exec acts0) ! 2 = Started (pushed acts0 ! 1)"
    by (simp add: exec_acts0) (simp add: acts0_def)
  from tasks_run_one_after_the_other[of acts0] h show ?thesis by blast
qed

lemma exec_append: "exec (acts @ bs) = fold step bs (exec acts)"
  by (simp add: exec_def)

lemma pushed_append: "pushed (acts @ bs) = pushed acts @ pushed bs"
  by (induction acts rule: pushed.induct) simp_all

lemma pushed_map_Settle: "pushed (map (Settle i) rs) = []"
  by (induction rs) simp_all

lemma queue_inv_started:
  assumes "queue_inv acts s"
  shows "started (trace s) @ queue s = pushed acts"
    and "started (trace s) = finished (trace s) @ awaiting s"
    and "length (awaiting s) \<le> 1"
    and "awaiting s = [] \<Longrightarrow> queue s = []"
  using assms
  by (auto simp: queue_inv_def started_append finished_append started_pairs finished_pairs
      started_map_Started finished_map_Started split: if_splits)

text \<open>
  Claim C2. In every run of the queue at most one activation of the worker loop exists,
  and there is one exactly when \<open>running\<close> is set. A push on an idle queue (flag not
  set) starts one worker, which takes the pushed task at once; a push while the flag is
  set starts none: it only appends the task to the array, where it waits for its turn.
\<close>

theorem at_most_one_worker:
  "length (awaiting (exec acts)) \<le> 1 \<and>
   (running (exec acts) \<longleftrightarrow> awaiting (exec acts) \<noteq> []) \<and>
   (\<not> running (exec acts) \<longrightarrow>
      awaiting (push t (exec acts)) = [t] \<and> queue (push t (exec acts)) = [] \<and>
      running (push t (exec acts))) \<and>
   (running (exec acts) \<longrightarrow>
      push t (exec acts) = (exec acts)\<lparr>queue := queue (exec acts) @ [t]\<rparr>)"
proof -
  have inv: "queue_inv acts (exec acts)" by (rule queue_inv_exec)
  then have aw: "length (awaiting (exec acts)) = (if running (exec acts) then 1 else 0)"
    and idle: "\<not> running (exec acts) \<longrightarrow> queue (exec acts) = []"
    by (simp_all add: queue_inv_def)
  from aw have a: "length (awaiting (exec acts)) \<le> 1"
    and b: "running (exec acts) \<longleftrightarrow> awaiting (exec acts) \<noteq> []"
    by (auto split: if_splits)
  have c: "awaiting (push t (exec acts)) = [t] \<and> queue (push t (exec acts)) = [] \<and>
      running (push t (exec acts))" if "\<not> running (exec acts)"
    using that idle b by (simp add: push_def run_def while_loop_def)
  have d: "push t (exec acts) = (exec acts)\<lparr>queue := queue (exec acts) @ [t]\<rparr>"
    if "running (exec acts)"
    using that by (simp add: push_def run_def)
  from a b c d show ?thesis by blast
qed

lemma drain:
  "queue_inv acts s \<Longrightarrow> length rs = length (awaiting s) + length (queue s) \<Longrightarrow>
   queue (fold step (map (Settle 0) rs) s) = [] \<and>
   awaiting (fold step (map (Settle 0) rs) s) = [] \<and>
   \<not> running (fold step (map (Settle 0) rs) s)"
proof (induction rs arbitrary: acts s)
  case Nil
  then show ?case by (auto simp: queue_inv_def split: if_splits)
next
  case (Cons r rs)
  from Cons.prems have inv': "queue_inv (acts @ [Settle 0 r]) (settle 0 r s)"
    by (simp add: queue_inv_settle)
  from Cons.prems have run: "running s"
    by (auto simp: queue_inv_def split: if_splits)
  with Cons.prems obtain t where aw: "awaiting s = [t]"
    by (auto simp: queue_inv_def length_Suc_conv)
  have len: "length (awaiting (settle 0 r s)) + length (queue (settle 0 r s)) = length (queue s)"
    using aw by (cases "queue s"; cases r) (simp_all add: settle_def while_loop_def)
  with Cons.prems aw have "length rs = length (awaiting (settle 0 r s)) + length (queue (settle 0 r s))"
    by simp
  from Cons.IH[OF inv' this] show ?case by simp
qed

text \<open>
  Claim C8. In every run the tasks started so far, in the order of their starts, followed
  by the tasks still in the array, are the pushed tasks in the order of the pushes: a task
  is started once, none is skipped and none overtakes another. A task has been started as
  soon as the tasks pushed before it have finished: the number of started tasks is one
  more than the number of finished ones, unless all pushed tasks have been started. And
  once the tasks in flight and in the array have settled, with whatever outcomes, every
  pushed task has been started and the queue is idle.
\<close>

theorem every_task_attempted_once:
  "started (trace (exec acts)) @ queue (exec acts) = pushed acts \<and>
   length (started (trace (exec acts))) =
     min (length (pushed acts)) (Suc (length (finished (trace (exec acts))))) \<and>
   (length rs = length (awaiting (exec acts)) + length (queue (exec acts)) \<longrightarrow>
      started (trace (exec (acts @ map (Settle 0) rs))) = pushed acts \<and>
      queue (exec (acts @ map (Settle 0) rs)) = [] \<and>
      awaiting (exec (acts @ map (Settle 0) rs)) = [] \<and>
      \<not> running (exec (acts @ map (Settle 0) rs)))"
proof -
  let ?s = "exec acts"
  note inv = queue_inv_started[OF queue_inv_exec[of acts]]
  have a: "started (trace ?s) @ queue ?s = pushed acts" by (rule inv(1))
  have b: "length (started (trace ?s)) = min (length (pushed acts)) (Suc (length (finished (trace ?s))))"
  proof (cases "awaiting ?s")
    case Nil
    with inv(4) have "queue ?s = []" by simp
    with a inv(2) Nil show ?thesis by simp
  next
    case (Cons t ts)
    with inv(3) have "awaiting ?s = [t]" by simp
    with inv(2) have "length (started (trace ?s)) = Suc (length (finished (trace ?s)))" by simp
    moreover from a have "length (started (trace ?s)) \<le> length (pushed acts)"
      by (metis length_append le_add1)
    ultimately show ?thesis by simp
  qed
  have c: "started (trace (exec (acts @ map (Settle 0) rs))) = pushed acts \<and>
      queue (exec (acts @ map (Settle 0) rs)) = [] \<and>
      awaiting (exec (acts @ map (Settle 0) rs)) = [] \<and>
      \<not> running (exec (acts @ map (Settle 0) rs))"
    if len: "length rs = length (awaiting ?s) + length (queue ?s)"
  proof -
    let ?s' = "exec (acts @ map (Settle 0) rs)"
    from drain[OF queue_inv_exec len]
    have d: "queue ?s' = []" "awaiting ?s' = []" "\<not> running ?s'"
      by (simp_all add: exec_append)
    from queue_inv_started(1)[OF queue_inv_exec[of "acts @ map (Settle 0) rs"]] d(1)
    have "started (trace ?s') = pushed acts"
      by (simp add: pushed_append pushed_map_Settle)
    with d show ?thesis by simp
  qed
  from a b c show ?thesis by blast
qed

lemmas queue_defs = exec_def new_queue_def push_def run_def while_loop_def settle_def

theorem at_most_one_worker_witness:
  "\<not> running (exec ([] :: nat action list)) \<and>
   awaiting (push 5 (exec ([] :: nat action list))) = [5] \<and>
   queue (push 5 (exec ([] :: nat action list))) = [] \<and>
   running (push 5 (exec ([] :: nat action list))) \<and>
   running (exec [Push (1::nat)]) \<and>
   push 2 (exec [Push (1::nat)]) = (exec [Push 1])\<lparr>queue := queue (exec [Push 1]) @ [2]\<rparr> \<and>
   length (awaiting (exec [Push (1::nat)])) \<le> 1"
proof -
  have h: "\<not> running (exec ([] :: nat action list))" "running (exec [Push (1::nat)])"
    by (simp_all add: queue_defs)
  from h at_most_one_worker[of "[] :: nat action list" 5] at_most_one_worker[of "[Push (1::nat)]" 2]
  show ?thesis by blast
qed

lemma exec_acts1:
  "exec acts1 = \<lparr>queue = [2, 3], running = True, awaiting = [1], trace = [Started 1],
     console = []\<rparr>"
  by (simp add: acts1_def queue_defs)

theorem every_task_attempted_once_witness:
  "length [Returned, Threw ''git failed'', Returned] =
     length (awaiting (exec acts1)) + length (queue (exec acts1)) \<and>
   started (trace (exec (acts1 @ map (Settle 0) [Returned, Threw ''git failed'', Returned]))) =
     pushed acts1 \<and>
   queue (exec (acts1 @ map (Settle 0) [Returned, Threw ''git failed'', Returned])) = [] \<and>
   awaiting (exec (acts1 @ map (Settle 0) [Returned, Threw ''git failed'', Returned])) = [] \<and>
   \<not> running (exec (acts1 @ map (Settle 0) [Returned, Threw ''git failed'', Returned]))"
proof -
  have h: "length [Returned, Threw ''git failed'', Returned] =
     length (awaiting (exec acts1)) + length (queue (exec acts1))"
    by (simp add: exec_acts1)
  from h every_task_attempted_once[of acts1 "[Returned, Threw ''git failed'', Returned]"]
  show ?thesis by blast
qed

section \<open>What the statements on the store and the handlers compute\<close>

lemma max_id_ge: "k \<in> set ks \<Longrightarrow> k \<le> max_id ks"
proof -
  assume "k \<in> set ks"
  then have "k \<le> Max (set (0 # ks))" by (intro Max_ge) simp_all
  then show ?thesis by (simp only: max_id_def Max.set_eq_fold)
qed

lemma find_snoc_fresh: "\<forall>x\<in>set xs. \<not> P x \<Longrightarrow> P y \<Longrightarrow> find P (xs @ [y]) = Some y"
  by (induction xs) simp_all

lemma find_snoc_other: "\<not> P y \<Longrightarrow> find P (xs @ [y]) = find P xs"
  by (induction xs) simp_all

lemma find_map_same: "(\<And>x. P (f x) = P x) \<Longrightarrow> find P (map f xs) = map_option f (find P xs)"
  by (induction xs) simp_all

lemma get_issue_update:
  "get_issue j (update_issue now t d st a i s) =
     map_option (\<lambda>r. if iid r = i then
                     r\<lparr>title := COALESCE t (title r),
                       description := COALESCE (map_option Some d) (description r),
                       status := COALESCE st (status r),
                       assignee := COALESCE (map_option Some a) (assignee r),
                       updated_at := now\<rparr>
                   else r) (get_issue j s)"
  unfolding get_issue_def update_issue_def
  by (simp add: find_map_same)

lemma get_issue_touch:
  "get_issue j (touch_issue now i s) =
     map_option (\<lambda>r. if iid r = i then r\<lparr>updated_at := now\<rparr> else r) (get_issue j s)"
  unfolding get_issue_def touch_issue_def
  by (simp add: find_map_same)

lemma get_issue_insert_comment:
  "get_issue j (snd (insert_comment now i a t s)) = get_issue j s"
  by (simp add: get_issue_def insert_comment_def Let_def)

lemma get_comment_insert_comment:
  "get_comment (fst (insert_comment now i a t s)) (snd (insert_comment now i a t s)) =
     Some \<lparr>cid = fst (insert_comment now i a t s), issue_id = i, author = a, body_text = t,
           c_created_at = now\<rparr>"
proof -
  let ?n = "Suc (max (comments_seq s) (max_id (map cid (comments s))))"
  have "\<forall>r\<in>set (comments s). cid r \<noteq> ?n"
  proof
    fix r assume "r \<in> set (comments s)"
    then have "cid r \<le> max_id (map cid (comments s))" by (intro max_id_ge) simp
    then show "cid r \<noteq> ?n" by simp
  qed
  then show ?thesis
    by (simp add: get_comment_def insert_comment_def Let_def find_snoc_fresh)
qed

lemma get_comment_fresh:
  "get_comment (fst (insert_comment now i a t s)) s = None"
proof -
  let ?n = "Suc (max (comments_seq s) (max_id (map cid (comments s))))"
  have "\<forall>r\<in>set (comments s). cid r \<noteq> ?n"
  proof
    fix r assume "r \<in> set (comments s)"
    then have "cid r \<le> max_id (map cid (comments s))" by (intro max_id_ge) simp
    then show "cid r \<noteq> ?n" by simp
  qed
  then show ?thesis
    by (simp add: get_comment_def insert_comment_def Let_def find_None_iff)
qed

lemma get_issue_insert_issue:
  assumes "insert_issue now (Some t) d a s = Inr (n, s')"
  shows "get_issue n s' = Some \<lparr>iid = n, title = t, description = d, status = ''open'',
           assignee = a, created_at = now, updated_at = now\<rparr>"
    and "get_issue n s = None"
    and "j \<noteq> n \<Longrightarrow> get_issue j s' = get_issue j s"
    and "comments s' = comments s"
proof -
  let ?n = "Suc (max (issues_seq s) (max_id (map iid (issues s))))"
  from assms have n: "n = ?n" and s': "s' = s\<lparr>issues := issues s @
                    [\<lparr>iid = n, title = t, description = d, status = ''open'',
                      assignee = a, created_at = now, updated_at = now\<rparr>],
                 issues_seq := n\<rparr>"
    by (auto simp: insert_issue_def Let_def)
  have fresh: "\<forall>r\<in>set (issues s). iid r \<noteq> n"
  proof
    fix r assume "r \<in> set (issues s)"
    then have "iid r \<le> max_id (map iid (issues s))" by (intro max_id_ge) simp
    then show "iid r \<noteq> n" unfolding n by simp
  qed
  show "get_issue n s' = Some \<lparr>iid = n, title = t, description = d, status = ''open'',
           assignee = a, created_at = now, updated_at = now\<rparr>"
    using fresh by (simp add: s' get_issue_def find_snoc_fresh)
  show "get_issue n s = None"
    using fresh by (simp add: get_issue_def find_None_iff)
  show "get_issue j s' = get_issue j s" if "j \<noteq> n"
    using that by (simp add: s' get_issue_def find_snoc_other)
  show "comments s' = comments s" by (simp add: s')
qed

lemma truthy_Str: "truthy v \<Longrightarrow> \<exists>s. v = Str s \<and> s \<noteq> []"
  by (cases v) simp_all

lemma post_issue_accepted:
  assumes "truthy (b ''title'')"
  shows "\<exists>issueId s' row issue task.
      insert_issue sql_now (bind (b ''title'')) (bind (js_or (b ''description'') (Str [])))
        (bind (js_or (b ''assignee'') Null)) (db w) = Inr (issueId, s') \<and>
      get_issue issueId s' = Some row \<and>
      get_issue issueId (db w) = None \<and>
      issue = set_prop ''comments'' (JArr []) (issue_json row) \<and>
      task = makeCommitTask (create_filename issueId (timestamp js_now))
               (JObj [(''action'', JStr ''create''), (''issue'', issue)])
               (''Create issue #'' @ dec issueId @ '': '' @ title row) \<and>
      post_issue b sql_now js_now w =
        (w\<lparr>db := s', commitQueue := push task (commitQueue w),
           effects := effects w @ [StoreWrite ''INSERT INTO issues'',
                                   Broadcast ''issue:created'' issue, Enqueue task]\<rparr>,
         Reply 201 issue)"
proof -
  from truthy_Str[OF assms] obtain t where t: "b ''title'' = Str t" by auto
  obtain n s' where ins: "insert_issue sql_now (Some t) (bind (js_or (b ''description'') (Str [])))
        (bind (js_or (b ''assignee'') Null)) (db w) = Inr (n, s')"
    by (simp add: insert_issue_def Let_def)
  note g = get_issue_insert_issue(1)[OF ins] get_issue_insert_issue(2)[OF ins]
  show ?thesis
    using assms ins g
    by (simp add: post_issue_def t db_run_def emit_def commitQueue_push_def Let_def)
qed

lemma put_issue_accepted:
  assumes "get_issue i (db w) = Some existing"
  shows "\<exists>s' row updated task.
      s' = update_issue sql_now (bind (b ''title'')) (bind (b ''description''))
             (bind (b ''status'')) (bind (b ''assignee'')) i (db w) \<and>
      get_issue i s' = Some row \<and>
      updated = set_prop ''comments'' (comments_json i s') (issue_json row) \<and>
      task = makeCommitTask (update_filename i (timestamp js_now))
               (JObj [(''action'', JStr ''update''), (''before'', issue_json existing),
                      (''after'', updated)])
               (''Update issue #'' @ dec i @ '': set '' @
                  to_string (js_or (b ''status'') (Str ''no-status-change''))) \<and>
      put_issue i b sql_now js_now w =
        (w\<lparr>db := s', commitQueue := push task (commitQueue w),
           effects := effects w @ [StoreWrite ''UPDATE issues'',
                                   Broadcast ''issue:updated'' updated, Enqueue task]\<rparr>,
         Reply 200 updated)"
  using assms
  by (simp add: put_issue_def get_issue_update db_run_def emit_def commitQueue_push_def Let_def)

lemma post_comment_accepted:
  assumes "truthy (b ''text'')" and "get_issue i (db w) = Some issue"
  shows "\<exists>commentId s1 s' row c updatedIssue task.
      insert_comment sql_now i (bind (js_or (b ''author'') (Str ''anonymous'')))
        (bind (b ''text'')) (db w) = (commentId, s1) \<and>
      s' = touch_issue sql_now' i s1 \<and>
      get_issue i s' = Some row \<and>
      get_comment commentId s' = Some c \<and>
      get_comment commentId (db w) = None \<and>
      updatedIssue = set_prop ''comments'' (comments_json i s') (issue_json row) \<and>
      task = makeCommitTask (comment_filename i commentId (timestamp js_now))
               (JObj [(''action'', JStr ''comment''), (''issue'', updatedIssue),
                      (''comment'', comment_json c)])
               (''Comment on issue #'' @ dec i @ '' by '' @
                  (case author c of None \<Rightarrow> ''anon'' | Some a \<Rightarrow> if a = [] then ''anon'' else a)) \<and>
      post_comment i b sql_now sql_now' js_now w =
        (w\<lparr>db := s', commitQueue := push task (commitQueue w),
           effects := effects w @ [StoreWrite ''INSERT INTO comments'', StoreWrite ''UPDATE issues'',
                                   Broadcast ''issue:comment''
                                     (JObj [(''issue'', updatedIssue), (''comment'', comment_json c)]),
                                   Enqueue task]\<rparr>,
         Reply 201 (comment_json c))"
proof -
  let ?ins = "insert_comment sql_now i (bind (js_or (b ''author'') (Str ''anonymous'')))
        (bind (b ''text'')) (db w)"
  obtain n s1 where ins: "?ins = (n, s1)" by (cases ?ins)
  from get_comment_insert_comment[of sql_now i _ _ "db w"] ins
  have gc: "get_comment n s1 = Some \<lparr>cid = n, issue_id = i,
       author = bind (js_or (b ''author'') (Str ''anonymous'')), body_text = bind (b ''text''),
       c_created_at = sql_now\<rparr>"
    by (metis fst_conv snd_conv)
  have gc': "get_comment n (touch_issue sql_now' i s1) = get_comment n s1"
    by (simp add: get_comment_def touch_issue_def)
  from get_issue_insert_comment[of i sql_now i _ _ "db w"] ins assms(2)
  have gi: "get_issue i s1 = Some issue"
    by (metis snd_conv)
  from get_comment_fresh[of sql_now i _ _ "db w"] ins
  have gf: "get_comment n (db w) = None"
    by (metis fst_conv)
  show ?thesis
    using assms ins gc gc' gi gf
    by (simp add: post_comment_def get_issue_touch db_run_def emit_def commitQueue_push_def Let_def)
qed

section \<open>The example runs, evaluated\<close>

lemmas handler_defs = post_issue_def put_issue_def post_comment_def insert_issue_def get_issue_def
  update_issue_def insert_comment_def get_comment_def touch_issue_def all_comments_def
  comments_json_def issue_json_def comment_json_def text_json_def db_run_def emit_def
  commitQueue_push_def makeCommitTask_def push_def run_def while_loop_def new_queue_def
  new_world_def max_id_def COALESCE_def js_or_def error_json_def Let_def

lemmas name_defs = create_filename_def update_filename_def comment_filename_def timestamp_def
  toISOString_def replace_colons_dots_def pad2_def pad3_def pad4_def pad6_def digit_def dec.simps

lemmas example_defs = body_create_def body_close_def body_reopen_def body_comment_def
  body_empty_def sql0_def sql1_def row1_def issue1_def task1_def task2_def task3_def
  issue_with_status_def row_json_with_status_def

lemma timestamp_clock0: "timestamp clock0 = ''2026-11-02T10-20-30-123Z''"
  by (simp add: clock0_def name_defs)

lemma timestamp_clock1: "timestamp clock1 = ''2026-11-02T10-20-30-124Z''"
  by (simp add: clock1_def clock0_def name_defs)

lemma dec_1: "dec 1 = ''1''" "dec (Suc 0) = ''1''"
  by (simp_all add: name_defs)

lemma world1_eq: "world1 =
  \<lparr>db = \<lparr>issues = [row1], comments = [], issues_seq = 1, comments_seq = 0\<rparr>,
    commitQueue = \<lparr>queue = [], running = True, awaiting = [task1], trace = [Started task1],
                    console = []\<rparr>,
    effects = [StoreWrite ''INSERT INTO issues'', Broadcast ''issue:created'' issue1,
               Enqueue task1]\<rparr>"
  unfolding world1_def
  by (simp add: handler_defs example_defs timestamp_clock0 dec_1 create_filename_def)

lemma get_issue_world1: "get_issue 1 (db world1) = Some row1"
  by (simp add: world1_eq get_issue_def row1_def)

lemma world2_eq: "world2 =
  \<lparr>db = \<lparr>issues = [row1\<lparr>status := ''closed''\<rparr>], comments = [], issues_seq = 1,
          comments_seq = 0\<rparr>,
    commitQueue = \<lparr>queue = [task2], running = True, awaiting = [task1], trace = [Started task1],
                    console = []\<rparr>,
    effects = [StoreWrite ''INSERT INTO issues'', Broadcast ''issue:created'' issue1,
               Enqueue task1, StoreWrite ''UPDATE issues'',
               Broadcast ''issue:updated'' (issue_with_status ''closed''), Enqueue task2]\<rparr>"
  unfolding world2_def world1_eq
  by (simp add: handler_defs example_defs timestamp_clock1 dec_1
      update_filename_def)

lemma world3_eq: "world3 =
  \<lparr>db = \<lparr>issues = [row1], comments = [], issues_seq = 1, comments_seq = 0\<rparr>,
    commitQueue = \<lparr>queue = [task2, task3], running = True, awaiting = [task1],
                    trace = [Started task1], console = []\<rparr>,
    effects = [StoreWrite ''INSERT INTO issues'', Broadcast ''issue:created'' issue1,
               Enqueue task1, StoreWrite ''UPDATE issues'',
               Broadcast ''issue:updated'' (issue_with_status ''closed''), Enqueue task2,
               StoreWrite ''UPDATE issues'',
               Broadcast ''issue:updated'' (issue_with_status ''open''), Enqueue task3]\<rparr>"
  unfolding world3_def world2_eq
  by (simp add: handler_defs example_defs timestamp_clock1 dec_1
      update_filename_def)

section \<open>The handlers\<close>

text \<open>
  Claim C9. A request that fails validation or names an issue that does not exist is
  answered with 400 or 404 and leaves the world as it was: the store is not changed,
  nothing is emitted and nothing is pushed onto the commit queue. The cases are: a create
  without a title, an update of an issue that does not exist, a comment without text, and
  a comment on an issue that does not exist.
\<close>

theorem rejected_requests_have_no_effect:
  "(\<not> truthy (b ''title'') \<longrightarrow>
      post_issue b sql_now js_now w = (w, Reply 400 (error_json ''title required''))) \<and>
   (get_issue i (db w) = None \<longrightarrow>
      put_issue i b sql_now js_now w = (w, Reply 404 (error_json ''Issue not found''))) \<and>
   (\<not> truthy (b ''text'') \<longrightarrow>
      post_comment i b sql_now sql_now' js_now w = (w, Reply 400 (error_json ''text required''))) \<and>
   (truthy (b ''text'') \<and> get_issue i (db w) = None \<longrightarrow>
      post_comment i b sql_now sql_now' js_now w = (w, Reply 404 (error_json ''Issue not found'')))"
  by (simp add: post_issue_def put_issue_def post_comment_def)

lemma get_issue_new_world: "get_issue i (db new_world) = None"
  by (simp add: get_issue_def new_world_def)

theorem rejected_requests_have_no_effect_witness:
  "\<not> truthy (body_empty ''title'') \<and>
   post_issue body_empty sql0 clock0 new_world =
     (new_world, Reply 400 (error_json ''title required'')) \<and>
   get_issue 7 (db new_world) = None \<and>
   put_issue 7 body_close sql0 clock0 new_world =
     (new_world, Reply 404 (error_json ''Issue not found'')) \<and>
   \<not> truthy (body_empty ''text'') \<and>
   post_comment 7 body_empty sql0 sql0 clock0 new_world =
     (new_world, Reply 400 (error_json ''text required'')) \<and>
   truthy (body_comment ''text'') \<and>
   post_comment 7 body_comment sql0 sql0 clock0 new_world =
     (new_world, Reply 404 (error_json ''Issue not found''))"
proof -
  have h: "\<not> truthy (body_empty ''title'')" "get_issue 7 (db new_world) = None"
    "\<not> truthy (body_empty ''text'')" "truthy (body_comment ''text'')"
    by (simp_all add: body_empty_def body_comment_def get_issue_new_world)
  from h rejected_requests_have_no_effect[where b = body_empty and w = new_world and i = 7
      and sql_now = sql0 and sql_now' = sql0 and js_now = clock0]
    rejected_requests_have_no_effect[where b = body_close and w = new_world and i = 7
      and sql_now = sql0 and sql_now' = sql0 and js_now = clock0]
    rejected_requests_have_no_effect[where b = body_comment and w = new_world and i = 7
      and sql_now = sql0 and sql_now' = sql0 and js_now = clock0]
  show ?thesis by blast
qed

lemma COALESCE_bind:
  "COALESCE (bind x) cur = (case x of Str v \<Rightarrow> v | Undefined \<Rightarrow> cur | Null \<Rightarrow> cur)"
  "COALESCE (map_option Some (bind x)) cur' =
     (case x of Str v \<Rightarrow> Some v | Undefined \<Rightarrow> cur' | Null \<Rightarrow> cur')"
  by (cases x; simp add: COALESCE_def)+

lemma get_issue_iid: "get_issue j s = Some r \<Longrightarrow> iid r = j"
  by (auto simp: get_issue_def find_Some_iff)

text \<open>
  Claim C10. An update of an existing issue leaves each of \<open>title\<close>, \<open>description\<close>,
  \<open>status\<close> and \<open>assignee\<close> as it was when the request body does not have the field
  or has it as \<open>null\<close>, and stores the supplied value otherwise; \<open>updated_at\<close> is set;
  the id and \<open>created_at\<close> of the row, every other row, the comments and the key
  counters stay as they were.
\<close>

theorem update_leaves_absent_fields_unchanged:
  assumes "get_issue i (db w) = Some r"
  shows "\<exists>r'. get_issue i (db (fst (put_issue i b sql_now js_now w))) = Some r' \<and>
     iid r' = iid r \<and> created_at r' = created_at r \<and> updated_at r' = sql_now \<and>
     (b ''title'' = Undefined \<or> b ''title'' = Null \<longrightarrow> title r' = title r) \<and>
     (\<forall>v. b ''title'' = Str v \<longrightarrow> title r' = v) \<and>
     (b ''description'' = Undefined \<or> b ''description'' = Null \<longrightarrow> description r' = description r) \<and>
     (\<forall>v. b ''description'' = Str v \<longrightarrow> description r' = Some v) \<and>
     (b ''status'' = Undefined \<or> b ''status'' = Null \<longrightarrow> status r' = status r) \<and>
     (\<forall>v. b ''status'' = Str v \<longrightarrow> status r' = v) \<and>
     (b ''assignee'' = Undefined \<or> b ''assignee'' = Null \<longrightarrow> assignee r' = assignee r) \<and>
     (\<forall>v. b ''assignee'' = Str v \<longrightarrow> assignee r' = Some v) \<and>
     (\<forall>j. j \<noteq> i \<longrightarrow> get_issue j (db (fst (put_issue i b sql_now js_now w))) = get_issue j (db w)) \<and>
     comments (db (fst (put_issue i b sql_now js_now w))) = comments (db w) \<and>
     issues_seq (db (fst (put_issue i b sql_now js_now w))) = issues_seq (db w) \<and>
     comments_seq (db (fst (put_issue i b sql_now js_now w))) = comments_seq (db w)"
proof -
  let ?s' = "update_issue sql_now (bind (b ''title'')) (bind (b ''description''))
             (bind (b ''status'')) (bind (b ''assignee'')) i (db w)"
  from put_issue_accepted[OF assms, where b = b and sql_now = sql_now and js_now = js_now]
  have dbw: "db (fst (put_issue i b sql_now js_now w)) = ?s'"
    by auto
  have ir: "iid r = i" using assms by (rule get_issue_iid)
  have other: "get_issue j ?s' = get_issue j (db w)" if "j \<noteq> i" for j
  proof (cases "get_issue j (db w)")
    case None
    then show ?thesis by (simp add: get_issue_update)
  next
    case (Some x)
    with that get_issue_iid[OF Some] show ?thesis by (simp add: get_issue_update)
  qed
  have rest: "comments ?s' = comments (db w)" "issues_seq ?s' = issues_seq (db w)"
    "comments_seq ?s' = comments_seq (db w)"
    by (simp_all add: update_issue_def)
  show ?thesis
    unfolding dbw
    using assms ir other rest
    by (simp add: get_issue_update COALESCE_bind)
qed

theorem update_leaves_absent_fields_unchanged_witness:
  "get_issue 1 (db world1) = Some row1 \<and>
   (\<exists>r'. get_issue 1 (db (fst (put_issue 1 body_close sql1 clock0 world1))) = Some r' \<and>
      iid r' = 1 \<and> title r' = ''x'' \<and> description r' = Some [] \<and> status r' = ''closed'' \<and>
      assignee r' = None \<and> created_at r' = sql0 \<and> updated_at r' = sql1)"
proof -
  have h: "get_issue 1 (db world1) = Some row1" by (rule get_issue_world1)
  from update_leaves_absent_fields_unchanged[OF h, where b = body_close and sql_now = sql1
      and js_now = clock0]
  obtain r' where "get_issue 1 (db (fst (put_issue 1 body_close sql1 clock0 world1))) = Some r'"
    "iid r' = 1 \<and> title r' = ''x'' \<and> description r' = Some [] \<and> status r' = ''closed'' \<and>
      assignee r' = None \<and> created_at r' = sql0 \<and> updated_at r' = sql1"
    by (auto simp: body_close_def row1_def sql0_def)
  with h show ?thesis by blast
qed

section \<open>What the steps of other requests keep\<close>

lemma bit_length_le: "n < 2 ^ k \<Longrightarrow> bit_length n \<le> k"
proof (induction n arbitrary: k rule: bit_length.induct)
  case (1 n)
  show ?case
  proof (cases "n = 0")
    case True
    then show ?thesis by (simp add: bit_length.simps)
  next
    case False
    with "1.prems" obtain k' where k: "k = Suc k'" by (cases k) auto
    with "1.prems" have "n div 2 < 2 ^ k'" by auto
    from "1.IH"[OF False this] False k show ?thesis
      by (simp add: bit_length.simps[of n])
  qed
qed

lemma js_number_exact: "n < 2 ^ 53 \<Longrightarrow> js_number n = n"
  using bit_length_le[of n 53] by (simp add: js_number_def)

text \<open>The key \<open>2^53 + 1\<close> arrives in the handler as \<open>2^53\<close>.\<close>

lemma bit_length_example: "bit_length 9007199254740993 = 54"
  by (simp add: bit_length.simps)

lemma js_number_rounds: "js_number 9007199254740993 = 9007199254740992"
  by (simp add: js_number_def bit_length_example)
















section \<open>The order of the effects of a request\<close>


lemma others_Nil: "others [] w = w"
  by (simp add: others_def)



text \<open>
  A request that runs alone: with no step of another request at any \<open>await\<close>, the
  suspended handlers are the handlers of the section before.
\<close>

lemma put_issue_async_alone:
  "put_issue_async dec i b sql_now js_now [] [] [] [] w = put_issue i b sql_now js_now w"
  by (simp add: put_issue_async_def put_issue_def put_update_def others_Nil update_filename_def
      Let_def split: option.splits)

lemma post_issue_async_alone:
  "Suc (max (issues_seq (db w)) (max_id (map iid (issues (db w))))) < 2 ^ 53 \<Longrightarrow>
   post_issue_async dec b sql_now js_now [] [] w = post_issue b sql_now js_now w"
  by (auto simp: post_issue_async_def post_issue_def sql_insert_issue_def insert_issue_def
      max_rowid_def others_Nil create_filename_def js_number_exact Let_def
      split: option.splits sum.splits)

lemma post_comment_async_alone:
  "Suc (max (comments_seq (db w)) (max_id (map cid (comments (db w))))) < 2 ^ 53 \<Longrightarrow>
   post_comment_async dec i b sql_now sql_now' js_now [] [] [] [] [] [] w =
     post_comment i b sql_now sql_now' js_now w"
  by (auto simp: post_comment_async_def post_comment_def sql_insert_comment_def insert_comment_def
      comment_touch_def max_rowid_def others_Nil comment_filename_def js_number_exact Let_def
      split: option.splits sum.splits)

section \<open>Entry names and timestamps\<close>

lemma digit_in: "digit n \<in> set ''0123456789''"
  unfolding digit_def by (rule nth_mem) simp

lemma digit_keep:
  "digit n \<noteq> CHR '':''" "digit n \<noteq> CHR ''.''" "digit n \<noteq> CHR ''-''" "digit n \<noteq> CHR ''+''"
  using digit_in[of n] by auto

lemma digit_eq_iff: "digit a = digit b \<longleftrightarrow> a mod 10 = b mod 10"
proof -
  have d: "distinct ''0123456789''" by simp
  show ?thesis
    unfolding digit_def
    by (subst nth_eq_iff_index_eq[OF d]) simp_all
qed

lemma next_digit:
  fixes a b :: nat
  assumes "a div 10 = b div 10" and "a mod 10 = b mod 10"
  shows "a = b"
  using assms by (metis div_mult_mod_eq)

lemma pad2_inj: "a < 100 \<Longrightarrow> b < 100 \<Longrightarrow> pad2 a = pad2 b \<Longrightarrow> a = b"
proof -
  assume a: "a < 100" and b: "b < 100" and e: "pad2 a = pad2 b"
  from e have e1: "a div 10 mod 10 = b div 10 mod 10" and e0: "a mod 10 = b mod 10"
    by (simp_all add: pad2_def digit_eq_iff)
  from a b have "a div 10 < 10" "b div 10 < 10" by simp_all
  with e1 have "a div 10 = b div 10" by simp
  with e0 show "a = b" by (rule next_digit[rotated])
qed

lemma pad3_inj: "a < 1000 \<Longrightarrow> b < 1000 \<Longrightarrow> pad3 a = pad3 b \<Longrightarrow> a = b"
proof -
  assume a: "a < 1000" and b: "b < 1000" and e: "pad3 a = pad3 b"
  from e have e2: "a div 100 mod 10 = b div 100 mod 10"
    and e1: "a div 10 mod 10 = b div 10 mod 10" and e0: "a mod 10 = b mod 10"
    by (simp_all add: pad3_def digit_eq_iff)
  from a b have "a div 100 < 10" "b div 100 < 10" by simp_all
  with e2 have "a div 100 = b div 100" by simp
  then have "a div 10 div 10 = b div 10 div 10" by (simp add: div_mult2_eq[symmetric])
  with e1 have "a div 10 = b div 10" by (rule next_digit[rotated])
  with e0 show "a = b" by (rule next_digit[rotated])
qed

lemma pad4_inj: "a < 10000 \<Longrightarrow> b < 10000 \<Longrightarrow> pad4 a = pad4 b \<Longrightarrow> a = b"
proof -
  assume a: "a < 10000" and b: "b < 10000" and e: "pad4 a = pad4 b"
  from e have e3: "a div 1000 mod 10 = b div 1000 mod 10"
    and e2: "a div 100 mod 10 = b div 100 mod 10"
    and e1: "a div 10 mod 10 = b div 10 mod 10" and e0: "a mod 10 = b mod 10"
    by (simp_all add: pad4_def digit_eq_iff)
  from a b have "a div 1000 < 10" "b div 1000 < 10" by simp_all
  with e3 have "a div 1000 = b div 1000" by simp
  then have "a div 100 div 10 = b div 100 div 10" by (simp add: div_mult2_eq[symmetric])
  with e2 have "a div 100 = b div 100" by (rule next_digit[rotated])
  then have "a div 10 div 10 = b div 10 div 10" by (simp add: div_mult2_eq[symmetric])
  with e1 have "a div 10 = b div 10" by (rule next_digit[rotated])
  with e0 show "a = b" by (rule next_digit[rotated])
qed

lemma pad6_inj: "a < 1000000 \<Longrightarrow> b < 1000000 \<Longrightarrow> pad6 a = pad6 b \<Longrightarrow> a = b"
proof -
  assume a: "a < 1000000" and b: "b < 1000000" and e: "pad6 a = pad6 b"
  from e have e5: "a div 100000 mod 10 = b div 100000 mod 10"
    and e4: "a div 10000 mod 10 = b div 10000 mod 10"
    and e3: "a div 1000 mod 10 = b div 1000 mod 10"
    and e2: "a div 100 mod 10 = b div 100 mod 10"
    and e1: "a div 10 mod 10 = b div 10 mod 10" and e0: "a mod 10 = b mod 10"
    by (simp_all add: pad6_def digit_eq_iff)
  from a b have "a div 100000 < 10" "b div 100000 < 10" by simp_all
  with e5 have "a div 100000 = b div 100000" by simp
  then have "a div 10000 div 10 = b div 10000 div 10" by (simp add: div_mult2_eq[symmetric])
  with e4 have "a div 10000 = b div 10000" by (rule next_digit[rotated])
  then have "a div 1000 div 10 = b div 1000 div 10" by (simp add: div_mult2_eq[symmetric])
  with e3 have "a div 1000 = b div 1000" by (rule next_digit[rotated])
  then have "a div 100 div 10 = b div 100 div 10" by (simp add: div_mult2_eq[symmetric])
  with e2 have "a div 100 = b div 100" by (rule next_digit[rotated])
  then have "a div 10 div 10 = b div 10 div 10" by (simp add: div_mult2_eq[symmetric])
  with e1 have "a div 10 = b div 10" by (rule next_digit[rotated])
  with e0 show "a = b" by (rule next_digit[rotated])
qed

lemma replace_append:
  "replace_colons_dots (s @ t) = replace_colons_dots s @ replace_colons_dots t"
  by (simp add: replace_colons_dots_def)

lemma replace_pads:
  "replace_colons_dots (pad2 n) = pad2 n" "replace_colons_dots (pad3 n) = pad3 n"
  "replace_colons_dots (pad4 n) = pad4 n" "replace_colons_dots (pad6 n) = pad6 n"
  by (simp_all add: replace_colons_dots_def pad2_def pad3_def pad4_def pad6_def digit_keep)

lemma replace_literals:
  "replace_colons_dots ''-'' = ''-''" "replace_colons_dots '':'' = ''-''"
  "replace_colons_dots ''.'' = ''-''" "replace_colons_dots ''T'' = ''T''"
  "replace_colons_dots ''Z'' = ''Z''" "replace_colons_dots ''+'' = ''+''"
  by (simp_all add: replace_colons_dots_def)

lemma length_pads: "length (pad2 n) = 2" "length (pad3 n) = 3" "length (pad4 n) = 4"
  "length (pad6 n) = 6"
  by (simp_all add: pad2_def pad3_def pad4_def pad6_def)

lemma timestamp_short:
  "year d \<le> 9999 \<Longrightarrow> timestamp d =
     pad4 (year d) @ ''-'' @ pad2 (month d) @ ''-'' @ pad2 (day d) @ ''T'' @ pad2 (hours d) @
     ''-'' @ pad2 (minutes d) @ ''-'' @ pad2 (seconds d) @ ''-'' @ pad3 (millis d) @ ''Z''"
  by (simp only: timestamp_def toISOString_def if_True replace_append replace_pads
      replace_literals)

lemma timestamp_long:
  "\<not> year d \<le> 9999 \<Longrightarrow> timestamp d =
     ''+'' @ pad6 (year d) @ ''-'' @ pad2 (month d) @ ''-'' @ pad2 (day d) @ ''T'' @
     pad2 (hours d) @ ''-'' @ pad2 (minutes d) @ ''-'' @ pad2 (seconds d) @ ''-'' @
     pad3 (millis d) @ ''Z''"
proof -
  assume y: "\<not> year d \<le> 9999"
  have "CHR ''+'' # pad6 (year d) = ''+'' @ pad6 (year d)" by simp
  with y show ?thesis
    by (simp only: timestamp_def toISOString_def if_False replace_append replace_pads
      replace_literals append_assoc)
qed

lemma timestamp_inj:
  assumes "valid_utc d" and "valid_utc d'" and "timestamp d = timestamp d'"
  shows "d = d'"
proof -
  from assms(1,2) have b: "year d < 1000000" "year d' < 1000000"
    "month d < 100" "month d' < 100" "day d < 100" "day d' < 100"
    "hours d < 100" "hours d' < 100" "minutes d < 100" "minutes d' < 100"
    "seconds d < 100" "seconds d' < 100" "millis d < 1000" "millis d' < 1000"
    by (simp_all add: valid_utc_def)
  have f: "year d = year d' \<and> month d = month d' \<and> day d = day d' \<and> hours d = hours d' \<and>
      minutes d = minutes d' \<and> seconds d = seconds d' \<and> millis d = millis d'"
  proof (cases "year d \<le> 9999"; cases "year d' \<le> 9999")
    assume y: "year d \<le> 9999" "year d' \<le> 9999"
    from assms(3) have "pad4 (year d) = pad4 (year d') \<and> pad2 (month d) = pad2 (month d') \<and>
        pad2 (day d) = pad2 (day d') \<and> pad2 (hours d) = pad2 (hours d') \<and>
        pad2 (minutes d) = pad2 (minutes d') \<and> pad2 (seconds d) = pad2 (seconds d') \<and>
        pad3 (millis d) = pad3 (millis d')"
      unfolding timestamp_short[OF y(1)] timestamp_short[OF y(2)]
      by (simp add: length_pads)
    with b y show ?thesis
      by (auto intro: pad2_inj pad3_inj pad4_inj)
  next
    assume y: "\<not> year d \<le> 9999" "\<not> year d' \<le> 9999"
    from assms(3) have "pad6 (year d) = pad6 (year d') \<and> pad2 (month d) = pad2 (month d') \<and>
        pad2 (day d) = pad2 (day d') \<and> pad2 (hours d) = pad2 (hours d') \<and>
        pad2 (minutes d) = pad2 (minutes d') \<and> pad2 (seconds d) = pad2 (seconds d') \<and>
        pad3 (millis d) = pad3 (millis d')"
      unfolding timestamp_long[OF y(1)] timestamp_long[OF y(2)]
      by (simp add: length_pads)
    with b show ?thesis
      by (auto intro: pad2_inj pad3_inj pad6_inj)
  next
    assume y: "year d \<le> 9999" "\<not> year d' \<le> 9999"
    from arg_cong[OF assms(3), of length] have False
      unfolding timestamp_short[OF y(1)] timestamp_long[OF y(2)]
      by (simp add: length_pads)
    then show ?thesis ..
  next
    assume y: "\<not> year d \<le> 9999" "year d' \<le> 9999"
    from arg_cong[OF assms(3), of length] have False
      unfolding timestamp_long[OF y(1)] timestamp_short[OF y(2)]
      by (simp add: length_pads)
    then show ?thesis ..
  qed
  then show ?thesis by simp
qed

lemma dec_digits: "set (dec n) \<subseteq> set ''0123456789''"
proof (induction n rule: dec.induct)
  case (1 n)
  show ?case
  proof (cases "n < 10")
    case True
    then show ?thesis using digit_in[of n] by (subst dec.simps) simp
  next
    case False
    with 1 show ?thesis using digit_in[of n] by (subst dec.simps) simp
  qed
qed

lemma dec_no_dash: "CHR ''-'' \<notin> set (dec n)"
  using dec_digits[of n] by auto

lemma dec_not_Nil: "dec n \<noteq> []" "[] \<noteq> dec n"
  by (subst dec.simps, simp)+

lemma dec_inj: "dec a = dec b \<Longrightarrow> a = b"
proof (induction a arbitrary: b rule: dec.induct)
  case (1 a)
  show ?case
  proof (cases "a < 10")
    case a: True
    show ?thesis
    proof (cases "b < 10")
      case True
      with a "1.prems" have "digit a = digit b"
        by (simp add: dec.simps[of a] dec.simps[of b])
      with a True show ?thesis by (simp add: digit_eq_iff)
    next
      case False
      with a "1.prems" show ?thesis
        by (simp add: dec.simps[of a] dec.simps[of b] dec_not_Nil)
    qed
  next
    case a: False
    show ?thesis
    proof (cases "b < 10")
      case True
      with a "1.prems" show ?thesis
        by (simp add: dec.simps[of a] dec.simps[of b] dec_not_Nil)
    next
      case False
      with a "1.prems" have "dec (a div 10) = dec (b div 10)" and "digit a = digit b"
        by (simp_all add: dec.simps[of a] dec.simps[of b])
      with "1.IH"[OF a] have "a div 10 = b div 10" "a mod 10 = b mod 10"
        by (simp_all add: digit_eq_iff)
      then show ?thesis by (rule next_digit)
    qed
  qed
qed

lemma split_at_sep:
  "sep \<notin> set xs \<Longrightarrow> sep \<notin> set xs' \<Longrightarrow> xs @ sep # ys = xs' @ sep # ys' \<Longrightarrow>
   xs = xs' \<and> ys = ys'"
proof (induction xs arbitrary: xs')
  case Nil
  then show ?case by (cases xs') auto
next
  case (Cons x xs)
  then show ?case by (cases xs') auto
qed

lemma id_and_rest:
  assumes "dec i @ ''-'' @ r = dec i' @ ''-'' @ r'"
  shows "i = i' \<and> r = r'"
proof -
  from assms have "dec i @ CHR ''-'' # r = dec i' @ CHR ''-'' # r'" by simp
  from split_at_sep[OF dec_no_dash dec_no_dash this] show ?thesis
    by (auto dest: dec_inj)
qed

section \<open>The names of the audit entries\<close>

text \<open>
  Claim C4, as the code has it. The name of an entry is a function of the kind, the issue
  id, the comment id (for a comment) and the clock reading down to the millisecond, and
  it determines them: two events of the same kind on the same issue get different names
  exactly when their clock readings differ in some field down to the millisecond (or, for
  comments, their comment ids differ). The builder is a total function: it has no
  failure, and nothing compares a name with the names in use.
\<close>

theorem entry_names_differ_when_timestamps_differ:
  assumes "valid_utc d" and "valid_utc d'"
  shows "(create_filename i (timestamp d) = create_filename i' (timestamp d') \<longleftrightarrow>
            i = i' \<and> d = d') \<and>
         (update_filename i (timestamp d) = update_filename i' (timestamp d') \<longleftrightarrow>
            i = i' \<and> d = d') \<and>
         (comment_filename i c (timestamp d) = comment_filename i' c' (timestamp d') \<longleftrightarrow>
            i = i' \<and> c = c' \<and> d = d')"
proof -
  note ti = timestamp_inj[OF assms]
  have a: "i = i' \<and> d = d'"
    if "create_filename i (timestamp d) = create_filename i' (timestamp d')"
  proof -
    from that have "dec i @ ''-'' @ (timestamp d @ ''.json'') =
        dec i' @ ''-'' @ (timestamp d' @ ''.json'')"
      by (simp add: create_filename_def)
    from id_and_rest[OF this] ti show ?thesis by simp
  qed
  have b: "i = i' \<and> d = d'"
    if "update_filename i (timestamp d) = update_filename i' (timestamp d')"
  proof -
    from that have "dec i @ ''-'' @ (timestamp d @ ''.json'') =
        dec i' @ ''-'' @ (timestamp d' @ ''.json'')"
      by (simp add: update_filename_def)
    from id_and_rest[OF this] ti show ?thesis by simp
  qed
  have c: "i = i' \<and> c = c' \<and> d = d'"
    if "comment_filename i c (timestamp d) = comment_filename i' c' (timestamp d')"
  proof -
    from that have "dec i @ ''-'' @ (dec c @ ''-'' @ (timestamp d @ ''.json'')) =
        dec i' @ ''-'' @ (dec c' @ ''-'' @ (timestamp d' @ ''.json''))"
      by (simp add: comment_filename_def)
    from id_and_rest[OF this] have i: "i = i'"
      and r: "dec c @ ''-'' @ (timestamp d @ ''.json'') = dec c' @ ''-'' @ (timestamp d' @ ''.json'')"
      by simp_all
    from id_and_rest[OF r] ti i show ?thesis by simp
  qed
  from a b c show ?thesis by blast
qed

lemma valid_clocks: "valid_utc clock0" "valid_utc clock1" "clock0 \<noteq> clock1"
  by (simp_all add: valid_utc_def clock0_def clock1_def)

theorem entry_names_differ_when_timestamps_differ_witness:
  "valid_utc clock0 \<and> valid_utc clock1 \<and> clock0 \<noteq> clock1 \<and>
   create_filename 1 (timestamp clock0) \<noteq> create_filename 1 (timestamp clock1) \<and>
   update_filename 1 (timestamp clock0) \<noteq> update_filename 1 (timestamp clock1) \<and>
   comment_filename 1 1 (timestamp clock0) \<noteq> comment_filename 1 1 (timestamp clock1)"
  using entry_names_differ_when_timestamps_differ[OF valid_clocks(1,2), of 1 1 1 1] valid_clocks
  by simp

text \<open>
  Claim C4 as stated fails: an issue is closed and reopened by two requests that read the
  clock in the same millisecond. Both requests are accepted, their records differ, and
  both commit tasks get the same entry name.
\<close>

theorem two_updates_in_one_millisecond_share_a_name:
  "snd (put_issue 1 body_close sql0 clock1 world1) = Reply 200 (issue_with_status ''closed'') \<and>
   snd (put_issue 1 body_reopen sql0 clock1 world2) = Reply 200 (issue_with_status ''open'') \<and>
   queue (commitQueue world3) = [task2, task3] \<and>
   content task2 \<noteq> content task3 \<and>
   filename task2 = ''update-issue-1-2026-11-02T10-20-30-124Z.json'' \<and>
   filename task3 = ''update-issue-1-2026-11-02T10-20-30-124Z.json''"
  unfolding world3_eq world2_eq world1_eq
  by (simp add: handler_defs example_defs timestamp_clock1 dec_1 update_filename_def)

section \<open>The commit task\<close>

lemma run_task_written:
  assumes "write_file env = Written"
  shows "files (fst (run_task stringify repo_dir env t d)) =
           (files d)(LOGS_DIR repo_dir @ ''/'' @ filename t \<mapsto> stringify (content t))"
    and "snd (run_task stringify repo_dir env t d) = Returned"
  using assms
  by (simp_all add: run_task_def git_error_def Let_def split: option.splits)

lemma run_task_other_files:
  "p \<noteq> LOGS_DIR repo_dir @ ''/'' @ filename t \<Longrightarrow>
   files (fst (run_task stringify repo_dir env t d)) p = files d p"
  by (simp add: run_task_def git_error_def Let_def split: option.splits write_result.splits)

text \<open>
  Claim C5, as the code has it. The write step does not look whether the entry exists:
  when \<open>fs.writeFile\<close> succeeds, the file of the entry's name holds the new body,
  whatever it held before, and the task does not fail; no file of another name is
  changed by a task, whatever the outcome of the write and of the git commands.
\<close>

theorem write_replaces_an_existing_entry:
  "(write_file env = Written \<longrightarrow>
      files (fst (run_task stringify repo_dir env t d)) =
        (files d)(LOGS_DIR repo_dir @ ''/'' @ filename t \<mapsto> stringify (content t)) \<and>
      snd (run_task stringify repo_dir env t d) = Returned) \<and>
   (p \<noteq> LOGS_DIR repo_dir @ ''/'' @ filename t \<longrightarrow>
      files (fst (run_task stringify repo_dir env t d)) p = files d p)"
  using run_task_written[of env stringify repo_dir t d] run_task_other_files[of p repo_dir t stringify env d]
  by blast

lemma path23_eq: "LOGS_DIR repo0 @ ''/'' @ filename task2 = path23"
  "LOGS_DIR repo0 @ ''/'' @ filename task3 = path23"
  by (simp_all add: LOGS_DIR_def repo0_def path23_def task2_def task3_def)

theorem write_replaces_an_existing_entry_witness:
  "write_file env_ok = Written \<and>
   files (fst (run_task JSON_stringify repo0 env_ok task2 disk0)) =
     (files disk0)(LOGS_DIR repo0 @ ''/'' @ filename task2 \<mapsto> JSON_stringify (content task2)) \<and>
   snd (run_task JSON_stringify repo0 env_ok task2 disk0) = Returned \<and>
   ''/srv/app/issue_logs/other.json'' \<noteq> LOGS_DIR repo0 @ ''/'' @ filename task2 \<and>
   files (fst (run_task JSON_stringify repo0 env_ok task2 disk0)) ''/srv/app/issue_logs/other.json'' =
     files disk0 ''/srv/app/issue_logs/other.json''"
proof -
  have h: "write_file env_ok = Written"
    "''/srv/app/issue_logs/other.json'' \<noteq> LOGS_DIR repo0 @ ''/'' @ filename task2"
    unfolding path23_eq by (simp_all add: env_ok_def path23_def)
  from h write_replaces_an_existing_entry[of env_ok JSON_stringify repo0 task2 disk0
      "''/srv/app/issue_logs/other.json''"]
  show ?thesis by blast
qed

lemma stringify_task2:
  "JSON_stringify (content task2) \<noteq> JSON_stringify (content task3)"
  by (simp add: JSON_stringify_def task2_def task3_def issue_with_status_def
      row_json_with_status_def quote_def escape_char_def dec.simps digit_def)

text \<open>
  Claim C5 as stated fails: the two update tasks of the example have the same entry name.
  When the second runs, the entry of the first exists; the write does not fail, the task
  returns, and the file holds the second record in place of the first.
\<close>

theorem second_write_overwrites_the_first:
  "files disk1 path23 = Some (JSON_stringify (content task2)) \<and>
   snd (run_task JSON_stringify repo0 env_ok task3 disk1) = Returned \<and>
   files (fst (run_task JSON_stringify repo0 env_ok task3 disk1)) path23 =
     Some (JSON_stringify (content task3)) \<and>
   JSON_stringify (content task3) \<noteq> JSON_stringify (content task2)"
proof -
  have w: "write_file env_ok = Written" by (simp add: env_ok_def)
  have a: "files disk1 path23 = Some (JSON_stringify (content task2))"
    unfolding disk1_def run_task_written(1)[OF w] path23_eq by simp
  have b: "files (fst (run_task JSON_stringify repo0 env_ok task3 disk1)) path23 =
     Some (JSON_stringify (content task3))"
    unfolding run_task_written(1)[OF w] path23_eq by simp
  from a b run_task_written(2)[OF w] stringify_task2 show ?thesis by simp
qed

lemma settle_threw_like_returned:
  "queue (settle i (Threw err) s) = queue (settle i Returned s)"
  "awaiting (settle i (Threw err) s) = awaiting (settle i Returned s)"
  "running (settle i (Threw err) s) = running (settle i Returned s)"
  "started (trace (settle i (Threw err) s)) = started (trace (settle i Returned s))"
  "i < length (awaiting s) \<Longrightarrow>
     console (settle i (Threw err) s) = console s @ [''Commit task error: '' @ err]"
  by (cases "queue s"; simp add: settle_def while_loop_def Let_def started_append)+

lemma settle_starts_next:
  "i < length (awaiting s) \<Longrightarrow> queue s = nxt # rest \<Longrightarrow>
   queue (settle i r s) = rest \<and>
   last (awaiting (settle i r s)) = nxt \<and>
   last (trace (settle i r s)) = Started nxt"
  by (cases r) (simp_all add: settle_def while_loop_def Let_def)

lemma drain_all_failing:
  assumes "length errs = length (awaiting (exec acts)) + length (queue (exec acts))"
  shows "started (trace (exec (acts @ map (\<lambda>e. Settle 0 (Threw e)) errs))) = pushed acts"
    and "\<not> running (exec (acts @ map (\<lambda>e. Settle 0 (Threw e)) errs))"
proof -
  define rs where "rs = map Threw errs"
  have m: "map (\<lambda>e. Settle 0 (Threw e)) errs = map (Settle 0) rs" by (simp add: rs_def)
  from assms have len: "length rs = length (awaiting (exec acts)) + length (queue (exec acts))"
    by (simp add: rs_def)
  let ?s' = "exec (acts @ map (Settle 0) rs)"
  from drain[OF queue_inv_exec len]
  have d: "queue ?s' = []" "\<not> running ?s'"
    by (simp_all add: exec_append)
  from queue_inv_started(1)[OF queue_inv_exec[of "acts @ map (Settle 0) rs"]] d(1)
  have "started (trace ?s') = pushed acts"
    by (simp add: pushed_append pushed_map_Settle)
  with d show "started (trace (exec (acts @ map (\<lambda>e. Settle 0 (Threw e)) errs))) = pushed acts"
    and "\<not> running (exec (acts @ map (\<lambda>e. Settle 0 (Threw e)) errs))"
    unfolding m by simp_all
qed

lemma run_task_git_error:
  "write_file env = Written \<Longrightarrow> exec_cmd env (git_add_cmd (filename t)) = Some e \<Longrightarrow>
     stdout (fst (run_task stringify repo_dir env t d)) = stdout d @ [''Git error: '' @ e]"
  "write_file env = Written \<Longrightarrow> exec_cmd env (git_add_cmd (filename t)) = None \<Longrightarrow>
   exec_cmd env (git_commit_cmd (message t)) = Some e \<Longrightarrow>
     stdout (fst (run_task stringify repo_dir env t d)) = stdout d @ [''Git error: '' @ e]"
  "write_file env = WriteFailed e left \<Longrightarrow>
     snd (run_task stringify repo_dir env t d) = Threw e"
  by (simp_all add: run_task_def git_error_def Let_def)

lemma reply_ignores_queue:
  "snd (post_issue b sql_now js_now (w\<lparr>commitQueue := q\<rparr>)) = snd (post_issue b sql_now js_now w)"
  "snd (put_issue j b sql_now js_now (w\<lparr>commitQueue := q\<rparr>)) = snd (put_issue j b sql_now js_now w)"
  "snd (post_comment j b sql_now sql_now' js_now (w\<lparr>commitQueue := q\<rparr>)) =
     snd (post_comment j b sql_now sql_now' js_now w)"
  by (simp_all add: post_issue_def put_issue_def post_comment_def db_run_def emit_def
      commitQueue_push_def Let_def split: sum.splits option.splits prod.splits)

text \<open>
  Claim C3. When the promise of the task in flight is rejected, the worker loop catches
  the error, logs it and goes on exactly as after a task that returned: the array, the
  suspended worker, the flag and the list of started tasks are the same in both cases,
  and the next task of the array, if there is one, is started at once. When every task
  fails, still every pushed task is started and the queue ends idle. A failure of
  \<open>git add\<close> or \<open>git commit\<close> is caught inside the task and logged there: the task
  returns. A failure of the write rejects the task, which is the case caught by the loop.
  What a handler answers does not depend on the commit queue, so no failure of a task
  reaches the request that pushed it.
\<close>

theorem a_failed_task_does_not_stop_the_queue:
  "queue (settle i (Threw err) s) = queue (settle i Returned s) \<and>
   awaiting (settle i (Threw err) s) = awaiting (settle i Returned s) \<and>
   running (settle i (Threw err) s) = running (settle i Returned s) \<and>
   started (trace (settle i (Threw err) s)) = started (trace (settle i Returned s)) \<and>
   (i < length (awaiting s) \<longrightarrow>
      console (settle i (Threw err) s) = console s @ [''Commit task error: '' @ err]) \<and>
   (i < length (awaiting s) \<and> queue s = nxt # rest \<longrightarrow>
      queue (settle i (Threw err) s) = rest \<and>
      last (awaiting (settle i (Threw err) s)) = nxt \<and>
      last (trace (settle i (Threw err) s)) = Started nxt) \<and>
   (length errs = length (awaiting (exec acts)) + length (queue (exec acts)) \<longrightarrow>
      started (trace (exec (acts @ map (\<lambda>e. Settle 0 (Threw e)) errs))) = pushed acts \<and>
      \<not> running (exec (acts @ map (\<lambda>e. Settle 0 (Threw e)) errs))) \<and>
   (write_file env = Written \<longrightarrow> snd (run_task stringify repo_dir env t d) = Returned) \<and>
   (write_file env = Written \<and> exec_cmd env (git_add_cmd (filename t)) = Some e \<longrightarrow>
      stdout (fst (run_task stringify repo_dir env t d)) = stdout d @ [''Git error: '' @ e]) \<and>
   (write_file env = Written \<and> exec_cmd env (git_add_cmd (filename t)) = None \<and>
    exec_cmd env (git_commit_cmd (message t)) = Some e \<longrightarrow>
      stdout (fst (run_task stringify repo_dir env t d)) = stdout d @ [''Git error: '' @ e]) \<and>
   (write_file env = WriteFailed e left \<longrightarrow>
      snd (run_task stringify repo_dir env t d) = Threw e) \<and>
   snd (post_issue b sql_now js_now (w\<lparr>commitQueue := q\<rparr>)) = snd (post_issue b sql_now js_now w) \<and>
   snd (put_issue j b sql_now js_now (w\<lparr>commitQueue := q\<rparr>)) = snd (put_issue j b sql_now js_now w) \<and>
   snd (post_comment j b sql_now sql_now' js_now (w\<lparr>commitQueue := q\<rparr>)) =
     snd (post_comment j b sql_now sql_now' js_now w)"
  by (simp add: settle_threw_like_returned settle_starts_next drain_all_failing
      run_task_written(2) run_task_git_error reply_ignores_queue)

lemma git_cmds_differ: "git_add_cmd f \<noteq> git_commit_cmd m"
  by (simp add: git_add_cmd_def git_commit_cmd_def)

theorem a_failed_task_does_not_stop_the_queue_witness:
  "0 < length (awaiting (exec acts1)) \<and> queue (exec acts1) = 2 # [3] \<and>
   console (settle 0 (Threw ''ENOSPC'') (exec acts1)) =
     console (exec acts1) @ [''Commit task error: '' @ ''ENOSPC''] \<and>
   queue (settle 0 (Threw ''ENOSPC'') (exec acts1)) = [3] \<and>
   last (awaiting (settle 0 (Threw ''ENOSPC'') (exec acts1))) = 2 \<and>
   last (trace (settle 0 (Threw ''ENOSPC'') (exec acts1))) = Started 2 \<and>
   length [''a'', ''b'', ''c''] = length (awaiting (exec acts1)) + length (queue (exec acts1)) \<and>
   started (trace (exec (acts1 @ map (\<lambda>e. Settle 0 (Threw e)) [''a'', ''b'', ''c'']))) =
     pushed acts1 \<and>
   \<not> running (exec (acts1 @ map (\<lambda>e. Settle 0 (Threw e)) [''a'', ''b'', ''c''])) \<and>
   write_file env_git_fails = Written \<and>
   exec_cmd env_git_fails (git_add_cmd (filename task1)) = Some ''fatal: not a git repository'' \<and>
   snd (run_task JSON_stringify repo0 env_git_fails task1 disk0) = Returned \<and>
   stdout (fst (run_task JSON_stringify repo0 env_git_fails task1 disk0)) =
     stdout disk0 @ [''Git error: '' @ ''fatal: not a git repository''] \<and>
   write_file env_commit_fails = Written \<and>
   exec_cmd env_commit_fails (git_add_cmd (filename task1)) = None \<and>
   exec_cmd env_commit_fails (git_commit_cmd (message task1)) =
     Some ''nothing to commit, working tree clean'' \<and>
   stdout (fst (run_task JSON_stringify repo0 env_commit_fails task1 disk0)) =
     stdout disk0 @ [''Git error: '' @ ''nothing to commit, working tree clean''] \<and>
   write_file env_write_fails = WriteFailed ''ENOSPC'' None \<and>
   snd (run_task JSON_stringify repo0 env_write_fails task1 disk0) = Threw ''ENOSPC''"
proof -
  have q: "0 < length (awaiting (exec acts1))" "queue (exec acts1) = 2 # [3]"
    "length [''a'', ''b'', ''c''] = length (awaiting (exec acts1)) + length (queue (exec acts1))"
    by (simp_all add: exec_acts1)
  have g: "write_file env_git_fails = Written"
    "exec_cmd env_git_fails (git_add_cmd (filename task1)) = Some ''fatal: not a git repository''"
    by (simp_all add: env_git_fails_def)
  have c: "write_file env_commit_fails = Written"
    "exec_cmd env_commit_fails (git_add_cmd (filename task1)) = None"
    "exec_cmd env_commit_fails (git_commit_cmd (message task1)) =
       Some ''nothing to commit, working tree clean''"
    by (simp_all add: env_commit_fails_def git_cmds_differ)
  have f: "write_file env_write_fails = WriteFailed ''ENOSPC'' None"
    by (simp add: env_write_fails_def)
  note t1 = a_failed_task_does_not_stop_the_queue[where i = 0 and s = "exec acts1"
      and err = "''ENOSPC''" and nxt = 2 and rest = "[3]" and errs = "[''a'', ''b'', ''c'']"
      and acts = acts1 and env = env_git_fails and t = task1
      and e = "''fatal: not a git repository''" and stringify = JSON_stringify
      and repo_dir = repo0 and d = disk0]
  note t2 = a_failed_task_does_not_stop_the_queue[where i = 0 and s = "exec acts1"
      and acts = acts1 and env = env_commit_fails and t = task1
      and e = "''nothing to commit, working tree clean''" and stringify = JSON_stringify
      and repo_dir = repo0 and d = disk0]
  note t3 = a_failed_task_does_not_stop_the_queue[where i = 0 and s = "exec acts1"
      and acts = acts1 and env = env_write_fails and t = task1
      and e = "''ENOSPC''" and left = None and stringify = JSON_stringify
      and repo_dir = repo0 and d = disk0]
  have a: "console (settle 0 (Threw ''ENOSPC'') (exec acts1)) =
     console (exec acts1) @ [''Commit task error: '' @ ''ENOSPC''] \<and>
   queue (settle 0 (Threw ''ENOSPC'') (exec acts1)) = [3] \<and>
   last (awaiting (settle 0 (Threw ''ENOSPC'') (exec acts1))) = 2 \<and>
   last (trace (settle 0 (Threw ''ENOSPC'') (exec acts1))) = Started 2 \<and>
   started (trace (exec (acts1 @ map (\<lambda>e. Settle 0 (Threw e)) [''a'', ''b'', ''c'']))) =
     pushed acts1 \<and>
   \<not> running (exec (acts1 @ map (\<lambda>e. Settle 0 (Threw e)) [''a'', ''b'', ''c''])) \<and>
   snd (run_task JSON_stringify repo0 env_git_fails task1 disk0) = Returned \<and>
   stdout (fst (run_task JSON_stringify repo0 env_git_fails task1 disk0)) =
     stdout disk0 @ [''Git error: '' @ ''fatal: not a git repository'']"
    using t1 q g by blast
  have b: "stdout (fst (run_task JSON_stringify repo0 env_commit_fails task1 disk0)) =
     stdout disk0 @ [''Git error: '' @ ''nothing to commit, working tree clean'']"
    using t2 c by blast
  have d: "snd (run_task JSON_stringify repo0 env_write_fails task1 disk0) = Threw ''ENOSPC''"
    using t3 f by blast
  from q g c f a b d show ?thesis by blast
qed

section \<open>The audit entry of a request\<close>

text \<open>
  Claim C6, as the code has it. The commit task that an accepted request pushes is named
  \<^verbatim>\<open>create-issue-{id}-{ts}.json\<close> for a create, \<^verbatim>\<open>update-issue-{id}-{ts}.json\<close> for
  an update and \<^verbatim>\<open>comment-issue-{id}-{commentId}-{ts}.json\<close> for a comment, where
  \<open>ts\<close> is the ISO timestamp of the handler's clock reading with every colon and dot
  replaced by a dash. Its record is \<open>{action, issue}\<close>, \<open>{action, before, after}\<close> or
  \<open>{action, issue, comment}\<close>, with the snapshots read back from the store. When the
  task runs and the write succeeds, the file of that name in \<open>issue_logs\<close> holds the
  JSON text of the record.
\<close>

theorem audit_entry_name_and_body:
  "(truthy (b ''title'') \<longrightarrow>
      (\<exists>issueId row issue msg.
         get_issue issueId (db (fst (post_issue b sql_now js_now w))) = Some row \<and>
         issue = set_prop ''comments'' (JArr []) (issue_json row) \<and>
         last (effects (fst (post_issue b sql_now js_now w))) =
           Enqueue \<lparr>filename = ''create-issue-'' @ dec issueId @ ''-'' @
                                replace_colons_dots (toISOString js_now) @ ''.json'',
                     content = JObj [(''action'', JStr ''create''), (''issue'', issue)],
                     message = msg\<rparr>)) \<and>
   (get_issue i (db w) = Some existing \<longrightarrow>
      (\<exists>row updated msg.
         get_issue i (db (fst (put_issue i b sql_now js_now w))) = Some row \<and>
         updated = set_prop ''comments''
                     (comments_json i (db (fst (put_issue i b sql_now js_now w)))) (issue_json row) \<and>
         last (effects (fst (put_issue i b sql_now js_now w))) =
           Enqueue \<lparr>filename = ''update-issue-'' @ dec i @ ''-'' @
                                replace_colons_dots (toISOString js_now) @ ''.json'',
                     content = JObj [(''action'', JStr ''update''),
                                     (''before'', issue_json existing), (''after'', updated)],
                     message = msg\<rparr>)) \<and>
   (truthy (b ''text'') \<and> get_issue i (db w) = Some existing \<longrightarrow>
      (\<exists>commentId row c updatedIssue msg.
         get_comment commentId (db (fst (post_comment i b sql_now sql_now' js_now w))) = Some c \<and>
         get_issue i (db (fst (post_comment i b sql_now sql_now' js_now w))) = Some row \<and>
         updatedIssue = set_prop ''comments''
                     (comments_json i (db (fst (post_comment i b sql_now sql_now' js_now w))))
                     (issue_json row) \<and>
         last (effects (fst (post_comment i b sql_now sql_now' js_now w))) =
           Enqueue \<lparr>filename = ''comment-issue-'' @ dec i @ ''-'' @ dec commentId @ ''-'' @
                                replace_colons_dots (toISOString js_now) @ ''.json'',
                     content = JObj [(''action'', JStr ''comment''), (''issue'', updatedIssue),
                                     (''comment'', comment_json c)],
                     message = msg\<rparr>)) \<and>
   (write_file env = Written \<longrightarrow>
      files (fst (run_task stringify repo_dir env t d))
        (repo_dir @ ''/issue_logs/'' @ filename t) = Some (stringify (content t)))"
proof -
  have c1: "\<exists>issueId row issue msg.
         get_issue issueId (db (fst (post_issue b sql_now js_now w))) = Some row \<and>
         issue = set_prop ''comments'' (JArr []) (issue_json row) \<and>
         last (effects (fst (post_issue b sql_now js_now w))) =
           Enqueue \<lparr>filename = ''create-issue-'' @ dec issueId @ ''-'' @
                                replace_colons_dots (toISOString js_now) @ ''.json'',
                     content = JObj [(''action'', JStr ''create''), (''issue'', issue)],
                     message = msg\<rparr>"
    if t: "truthy (b ''title'')"
  proof -
    from post_issue_accepted[where b = b and sql_now = sql_now and js_now = js_now and w = w, OF t]
    obtain issueId s' row issue task where
      f: "get_issue issueId s' = Some row"
         "issue = set_prop ''comments'' (JArr []) (issue_json row)"
         "task = makeCommitTask (create_filename issueId (timestamp js_now))
               (JObj [(''action'', JStr ''create''), (''issue'', issue)])
               (''Create issue #'' @ dec issueId @ '': '' @ title row)"
         "post_issue b sql_now js_now w =
        (w\<lparr>db := s', commitQueue := push task (commitQueue w),
           effects := effects w @ [StoreWrite ''INSERT INTO issues'',
                                   Broadcast ''issue:created'' issue, Enqueue task]\<rparr>,
         Reply 201 issue)"
      by blast
    show ?thesis
      unfolding f(4)
      by (rule exI[of _ issueId], rule exI[of _ row], rule exI[of _ issue],
          rule exI[of _ "''Create issue #'' @ dec issueId @ '': '' @ title row"])
         (simp add: f(1,2) f(3) makeCommitTask_def create_filename_def timestamp_def)
  qed
  have c2: "\<exists>row updated msg.
         get_issue i (db (fst (put_issue i b sql_now js_now w))) = Some row \<and>
         updated = set_prop ''comments''
                     (comments_json i (db (fst (put_issue i b sql_now js_now w)))) (issue_json row) \<and>
         last (effects (fst (put_issue i b sql_now js_now w))) =
           Enqueue \<lparr>filename = ''update-issue-'' @ dec i @ ''-'' @
                                replace_colons_dots (toISOString js_now) @ ''.json'',
                     content = JObj [(''action'', JStr ''update''),
                                     (''before'', issue_json existing), (''after'', updated)],
                     message = msg\<rparr>"
    if e: "get_issue i (db w) = Some existing"
  proof -
    from put_issue_accepted[where b = b and sql_now = sql_now and js_now = js_now, OF e]
    obtain s' row updated task where
      f: "get_issue i s' = Some row"
         "updated = set_prop ''comments'' (comments_json i s') (issue_json row)"
         "task = makeCommitTask (update_filename i (timestamp js_now))
               (JObj [(''action'', JStr ''update''), (''before'', issue_json existing),
                      (''after'', updated)])
               (''Update issue #'' @ dec i @ '': set '' @
                  to_string (js_or (b ''status'') (Str ''no-status-change'')))"
         "put_issue i b sql_now js_now w =
        (w\<lparr>db := s', commitQueue := push task (commitQueue w),
           effects := effects w @ [StoreWrite ''UPDATE issues'',
                                   Broadcast ''issue:updated'' updated, Enqueue task]\<rparr>,
         Reply 200 updated)"
      by blast
    show ?thesis
      unfolding f(4)
      by (rule exI[of _ row], rule exI[of _ updated],
          rule exI[of _ "''Update issue #'' @ dec i @ '': set '' @
                  to_string (js_or (b ''status'') (Str ''no-status-change''))"])
         (simp add: f(1,2) f(3) makeCommitTask_def update_filename_def timestamp_def)
  qed
  have c3: "\<exists>commentId row c updatedIssue msg.
         get_comment commentId (db (fst (post_comment i b sql_now sql_now' js_now w))) = Some c \<and>
         get_issue i (db (fst (post_comment i b sql_now sql_now' js_now w))) = Some row \<and>
         updatedIssue = set_prop ''comments''
                     (comments_json i (db (fst (post_comment i b sql_now sql_now' js_now w))))
                     (issue_json row) \<and>
         last (effects (fst (post_comment i b sql_now sql_now' js_now w))) =
           Enqueue \<lparr>filename = ''comment-issue-'' @ dec i @ ''-'' @ dec commentId @ ''-'' @
                                replace_colons_dots (toISOString js_now) @ ''.json'',
                     content = JObj [(''action'', JStr ''comment''), (''issue'', updatedIssue),
                                     (''comment'', comment_json c)],
                     message = msg\<rparr>"
    if t: "truthy (b ''text'')" and e: "get_issue i (db w) = Some existing"
  proof -
    from post_comment_accepted[where b = b and sql_now = sql_now and sql_now' = sql_now'
        and js_now = js_now, OF t e]
    obtain commentId and s1 :: database and s' row c updatedIssue task where
      f: "get_issue i s' = Some row" "get_comment commentId s' = Some c"
         "updatedIssue = set_prop ''comments'' (comments_json i s') (issue_json row)"
         "task = makeCommitTask (comment_filename i commentId (timestamp js_now))
               (JObj [(''action'', JStr ''comment''), (''issue'', updatedIssue),
                      (''comment'', comment_json c)])
               (''Comment on issue #'' @ dec i @ '' by '' @
                  (case author c of None \<Rightarrow> ''anon'' | Some a \<Rightarrow> if a = [] then ''anon'' else a))"
         "post_comment i b sql_now sql_now' js_now w =
        (w\<lparr>db := s', commitQueue := push task (commitQueue w),
           effects := effects w @ [StoreWrite ''INSERT INTO comments'', StoreWrite ''UPDATE issues'',
                                   Broadcast ''issue:comment''
                                     (JObj [(''issue'', updatedIssue), (''comment'', comment_json c)]),
                                   Enqueue task]\<rparr>,
         Reply 201 (comment_json c))"
      by blast
    show ?thesis
      unfolding f(5)
      by (rule exI[of _ commentId], rule exI[of _ row], rule exI[of _ c],
          rule exI[of _ updatedIssue],
          rule exI[of _ "''Comment on issue #'' @ dec i @ '' by '' @
                  (case author c of None \<Rightarrow> ''anon'' | Some a \<Rightarrow> if a = [] then ''anon'' else a)"])
         (simp add: f(1,2,3) f(4) makeCommitTask_def comment_filename_def timestamp_def)
  qed
  have c4: "files (fst (run_task stringify repo_dir env t d))
        (repo_dir @ ''/issue_logs/'' @ filename t) = Some (stringify (content t))"
    if "write_file env = Written"
    unfolding run_task_written(1)[OF that] by (simp add: LOGS_DIR_def)
  from c1 c2 c3 c4 show ?thesis by blast
qed

theorem audit_entry_name_and_body_witness:
  "truthy (body_create ''title'') \<and>
   (\<exists>issueId row issue msg.
         get_issue issueId (db (fst (post_issue body_create sql0 clock0 new_world))) = Some row \<and>
         issue = set_prop ''comments'' (JArr []) (issue_json row) \<and>
         last (effects (fst (post_issue body_create sql0 clock0 new_world))) =
           Enqueue \<lparr>filename = ''create-issue-'' @ dec issueId @ ''-'' @
                                replace_colons_dots (toISOString clock0) @ ''.json'',
                     content = JObj [(''action'', JStr ''create''), (''issue'', issue)],
                     message = msg\<rparr>) \<and>
   get_issue 1 (db world1) = Some row1 \<and>
   (\<exists>row updated msg.
         get_issue 1 (db (fst (put_issue 1 body_close sql1 clock0 world1))) = Some row \<and>
         updated = set_prop ''comments''
                     (comments_json 1 (db (fst (put_issue 1 body_close sql1 clock0 world1))))
                     (issue_json row) \<and>
         last (effects (fst (put_issue 1 body_close sql1 clock0 world1))) =
           Enqueue \<lparr>filename = ''update-issue-'' @ dec 1 @ ''-'' @
                                replace_colons_dots (toISOString clock0) @ ''.json'',
                     content = JObj [(''action'', JStr ''update''),
                                     (''before'', issue_json row1), (''after'', updated)],
                     message = msg\<rparr>) \<and>
   truthy (body_comment ''text'') \<and>
   (\<exists>commentId row c updatedIssue msg.
         get_comment commentId (db (fst (post_comment 1 body_comment sql1 sql1 clock0 world1))) =
           Some c \<and>
         get_issue 1 (db (fst (post_comment 1 body_comment sql1 sql1 clock0 world1))) = Some row \<and>
         updatedIssue = set_prop ''comments''
                     (comments_json 1 (db (fst (post_comment 1 body_comment sql1 sql1 clock0 world1))))
                     (issue_json row) \<and>
         last (effects (fst (post_comment 1 body_comment sql1 sql1 clock0 world1))) =
           Enqueue \<lparr>filename = ''comment-issue-'' @ dec 1 @ ''-'' @ dec commentId @ ''-'' @
                                replace_colons_dots (toISOString clock0) @ ''.json'',
                     content = JObj [(''action'', JStr ''comment''), (''issue'', updatedIssue),
                                     (''comment'', comment_json c)],
                     message = msg\<rparr>) \<and>
   write_file env_ok = Written \<and>
   files (fst (run_task JSON_stringify repo0 env_ok task1 disk0))
        (repo0 @ ''/issue_logs/'' @ filename task1) = Some (JSON_stringify (content task1))"
proof -
  have h1: "truthy (body_create ''title'')" by (simp add: body_create_def)
  have h2: "get_issue 1 (db world1) = Some row1" by (rule get_issue_world1)
  have h3: "truthy (body_comment ''text'')" by (simp add: body_comment_def)
  have h4: "write_file env_ok = Written" by (simp add: env_ok_def)
  note t1 = audit_entry_name_and_body[where b = body_create and w = new_world
      and sql_now = sql0 and js_now = clock0, THEN conjunct1, THEN mp, OF h1]
  note t2 = audit_entry_name_and_body[where b = body_close and w = world1
      and sql_now = sql1 and js_now = clock0 and i = 1 and existing = row1,
      THEN conjunct2, THEN conjunct1, THEN mp, OF h2]
  note t3 = audit_entry_name_and_body[where b = body_comment and w = world1
      and sql_now = sql1 and sql_now' = sql1 and js_now = clock0 and i = 1 and existing = row1,
      THEN conjunct2, THEN conjunct2, THEN conjunct1, THEN mp, OF conjI[OF h3 h2]]
  note t4 = audit_entry_name_and_body[where env = env_ok and stringify = JSON_stringify
      and repo_dir = repo0 and t = task1 and d = disk0,
      THEN conjunct2, THEN conjunct2, THEN conjunct2, THEN mp, OF h4]
  show ?thesis
    by (intro conjI) (rule h1 h2 h3 h4 t1 t2 t3 t4)+
qed

text \<open>
  Claim C6 as stated fails: the name of the entry for the creation of issue 1 is not
  \<^verbatim>\<open>create-1-{ts}.json\<close>, as the scheme \<^verbatim>\<open>{kind}-{subjectId}-{ts}.json\<close> has it,
  and the name of the entry for a comment has the id of the comment between the id of the
  issue and the timestamp, whether the kind is read as \<open>comment\<close> or as
  \<open>comment-issue\<close>.
\<close>

theorem entry_names_are_not_in_the_specified_scheme:
  "last (effects (fst (post_issue body_create sql0 clock0 new_world))) = Enqueue task1 \<and>
   filename task1 = ''create-issue-1-2026-11-02T10-20-30-123Z.json'' \<and>
   spec_entry_name ''create'' 1 (timestamp clock0) = ''create-1-2026-11-02T10-20-30-123Z.json'' \<and>
   filename task1 \<noteq> spec_entry_name ''create'' 1 (timestamp clock0) \<and>
   comment_filename 1 1 (timestamp clock0) = ''comment-issue-1-1-2026-11-02T10-20-30-123Z.json'' \<and>
   spec_entry_name ''comment'' 1 (timestamp clock0) = ''comment-1-2026-11-02T10-20-30-123Z.json'' \<and>
   comment_filename 1 1 (timestamp clock0) \<noteq> spec_entry_name ''comment'' 1 (timestamp clock0) \<and>
   comment_filename 1 1 (timestamp clock0) \<noteq>
     spec_entry_name ''comment-issue'' 1 (timestamp clock0)"
  unfolding world1_def[symmetric] world1_eq
  by (simp add: task1_def spec_entry_name_def comment_filename_def timestamp_clock0 dec_1)

end
